theory Spec2Isabelle
  imports Complex_Main
begin

section \<open>The maze-chase engine of \<^verbatim>\<open>src/pacman.py\<close>\<close>

text \<open>
  A shallow embedding of the simulation core of \<^verbatim>\<open>pacman.py\<close>: the maze and its
  pellets, the grid-aware entities (player and ghost), the particle system, the sound
  manager and the scene state machine of the engine.

  Conventions of the embedding.
  \<^item> Python's unbounded \<^verbatim>\<open>int\<close> is \<^typ>\<open>int\<close>. A Python \<^verbatim>\<open>float\<close> is the \<^typ>\<open>real\<close> it
    stands for. The subtraction that ages a particle is rounded as binary64 arithmetic
    rounds it (\<open>float_sub\<close>), because what is claimed of it depends on the rounding.
    The other float operations are exact in the model; the theorems about coordinates
    are stated for the cells on which the float operations of the code are exact too
    (all values integers or half-integers below \<open>2\<^sup>5\<^sup>3\<close>). Infinities and NaN are
    outside the model.
  \<^item> An exception is a value: a function that can raise returns \<open>py_error + 'a\<close>,
    with \<open>Inl\<close> the exception.
  \<^item> Mutation is explicit state passing: a method returns the updated object.
  \<^item> Draws of the random generator are explicit arguments.
  \<^item> Drawing, fonts and the audio device belong to pygame and are not modelled beyond
    what the methods below hand to them.
\<close>

subsection \<open>Exceptions and indexing\<close>

datatype py_error = IndexError | ValueError | KeyError

text \<open>The subscript \<^verbatim>\<open>xs[i]\<close>: an index from \<open>0\<close> up to the length reads from the
  front, one from \<open>-1\<close> down to minus the length reads from the back, any other raises
  \<^verbatim>\<open>IndexError\<close>. (Every subscript of the source is reached with \<open>i \<ge> 0\<close>.)\<close>

definition getitem :: "'a list \<Rightarrow> int \<Rightarrow> py_error + 'a" where
  "getitem xs i =
     (if 0 \<le> i \<and> i < int (length xs) then Inr (xs ! nat i)
      else if i < 0 \<and> - int (length xs) \<le> i then Inr (xs ! nat (int (length xs) + i))
      else Inl IndexError)"

subsection \<open>Settings\<close>

definition CELL_SIZE :: int where "CELL_SIZE = 32"
definition MAZE_OFFSET_X :: int where "MAZE_OFFSET_X = 48"
definition MAZE_OFFSET_Y :: int where "MAZE_OFFSET_Y = 120"
definition PLAYER_SPEED :: real where "PLAYER_SPEED = 160"
definition GHOST_SPEED :: real where "GHOST_SPEED = 140"
definition POWER_PELLET_DURATION :: real where "POWER_PELLET_DURATION = 8"
definition PLAYER_INVULNERABILITY_DURATION :: real where "PLAYER_INVULNERABILITY_DURATION = 3"

type_synonym colour = "int \<times> int \<times> int"

definition COLOR_YELLOW :: colour where "COLOR_YELLOW = (255, 255, 0)"
definition COLOR_RED :: colour where "COLOR_RED = (255, 0, 0)"

subsection \<open>Direction and Vector2\<close>

datatype Direction = NONE | UP | DOWN | LEFT | RIGHT

text \<open>\<^verbatim>\<open>Direction.value\<close>, the tuple each member is declared with.\<close>

fun dir_value :: "Direction \<Rightarrow> int \<times> int" where
  "dir_value NONE = (0, 0)"
| "dir_value UP = (0, - 1)"
| "dir_value DOWN = (0, 1)"
| "dir_value LEFT = (- 1, 0)"
| "dir_value RIGHT = (1, 0)"

text \<open>\<^verbatim>\<open>Direction(v)\<close>, the enum's lookup by value; a value no member has raises
  \<^verbatim>\<open>ValueError\<close>.\<close>

definition Direction_of :: "int \<times> int \<Rightarrow> py_error + Direction" where
  "Direction_of v =
     (if v = (0, 0) then Inr NONE
      else if v = (0, - 1) then Inr UP
      else if v = (0, 1) then Inr DOWN
      else if v = (- 1, 0) then Inr LEFT
      else if v = (1, 0) then Inr RIGHT
      else Inl ValueError)"

record Vector2 =
  x :: real
  y :: real

definition Vector2_add :: "Vector2 \<Rightarrow> Vector2 \<Rightarrow> Vector2" where
  "Vector2_add a b = \<lparr>x = x a + x b, y = y a + y b\<rparr>"

definition Vector2_sub :: "Vector2 \<Rightarrow> Vector2 \<Rightarrow> Vector2" where
  "Vector2_sub a b = \<lparr>x = x a - x b, y = y a - y b\<rparr>"

definition Vector2_mul :: "Vector2 \<Rightarrow> real \<Rightarrow> Vector2" where
  "Vector2_mul a scalar = \<lparr>x = x a * scalar, y = y a * scalar\<rparr>"

definition Vector2_length :: "Vector2 \<Rightarrow> real" where
  "Vector2_length a = sqrt ((x a)\<^sup>2 + (y a)\<^sup>2)"

definition distance_to :: "Vector2 \<Rightarrow> Vector2 \<Rightarrow> real" where
  "distance_to a other = Vector2_length (Vector2_sub a other)"

text \<open>\<^verbatim>\<open>int(v)\<close> of a float truncates toward zero; \<^verbatim>\<open>a % b\<close> of floats takes the sign
  of the divisor (the divisors of the source are the positive constants 32 and 90).\<close>

definition py_int :: "real \<Rightarrow> int" where
  "py_int v = (if 0 \<le> v then \<lfloor>v\<rfloor> else \<lceil>v\<rceil>)"

definition py_mod :: "real \<Rightarrow> real \<Rightarrow> real" where
  "py_mod a b = a - b * of_int \<lfloor>a / b\<rfloor>"

subsection \<open>Float rounding\<close>

text \<open>A binary64 float carries 53 significant bits, and an operation returns the float
  nearest to the exact result, the one with the even last bit when two are equally
  near. \<open>round_double v\<close> scales \<open>v\<close> by the power of two that puts its magnitude in
  \<open>[2\<^sup>5\<^sup>2, 2\<^sup>5\<^sup>3)\<close>, rounds to an integer and scales back. The exponent is not bounded:
  overflow is outside the model, and so is the fixed spacing of the subnormal floats
  (where a difference of two floats is exact anyway). \<open>is_double v\<close> says that \<open>v\<close> is such
  a float.\<close>

definition round_half_even :: "real \<Rightarrow> int" where
  "round_half_even v =
     (let f = \<lfloor>v\<rfloor>; d = v - of_int f
      in if d < 1 / 2 then f else if 1 / 2 < d then f + 1 else if even f then f else f + 1)"

definition round_double :: "real \<Rightarrow> real" where
  "round_double v =
     (if v = 0 then 0
      else (let u = 2 powr of_int (\<lfloor>log 2 \<bar>v\<bar>\<rfloor> - 52)
            in sgn v * (u * of_int (round_half_even (\<bar>v\<bar> / u)))))"

definition float_sub :: "real \<Rightarrow> real \<Rightarrow> real" where
  "float_sub a b = round_double (a - b)"

definition is_double :: "real \<Rightarrow> bool" where
  "is_double v \<longleftrightarrow> round_double v = v"

subsection \<open>The random generator\<close>

text \<open>The state of the \<^verbatim>\<open>random\<close> module, as the sequence of values \<^verbatim>\<open>random.random()\<close>
  will return from now on (each in \<open>[0, 1)\<close>). \<^verbatim>\<open>random.uniform(a, b)\<close> is
  \<^verbatim>\<open>a + (b - a) * random()\<close>.\<close>

type_synonym rng = "nat \<Rightarrow> real"

definition random_uniform :: "real \<Rightarrow> real \<Rightarrow> rng \<Rightarrow> real \<times> rng" where
  "random_uniform a b g = (a + (b - a) * g 0, \<lambda>n. g (Suc n))"

text \<open>\<^verbatim>\<open>random.choice(seq)\<close> is \<^verbatim>\<open>seq[i]\<close> for the index \<open>i\<close> the generator draws
  below \<^verbatim>\<open>len(seq)\<close>; the draw is an argument.\<close>

definition random_choice :: "'a list \<Rightarrow> nat \<Rightarrow> py_error + 'a" where
  "random_choice seq i = getitem seq (int i)"

definition bind_err :: "py_error + 'a \<Rightarrow> ('a \<Rightarrow> py_error + 'b) \<Rightarrow> py_error + 'b" where
  "bind_err m f = (case m of Inl e \<Rightarrow> Inl e | Inr v \<Rightarrow> f v)"

subsection \<open>SoundManager\<close>

text \<open>A sound is its sample buffer. The waveform synthesis of \<^verbatim>\<open>_load_sounds\<close> is not
  modelled: a manager is any table of named sounds with its \<open>enabled\<close> flag. The audio
  device is the list of requests handed to it; \<open>device_play\<close> is pygame's
  \<^verbatim>\<open>Sound.play(loops)\<close>, which may raise.\<close>

type_synonym Sound = "int list"
type_synonym mixer = "(Sound \<times> int) list"

record SoundManager =
  sounds :: "string \<rightharpoonup> Sound"
  enabled :: bool

definition play ::
  "(Sound \<Rightarrow> int \<Rightarrow> mixer \<Rightarrow> py_error + mixer) \<Rightarrow> string \<Rightarrow> int \<Rightarrow> SoundManager \<Rightarrow> mixer
     \<Rightarrow> py_error + (SoundManager \<times> mixer)" where
  "play device_play sound_name loops sm mx =
     (if enabled sm \<and> sound_name \<in> dom (sounds sm) then
        (case sounds sm sound_name of
           Some s \<Rightarrow> bind_err (device_play s loops mx) (\<lambda>mx'. Inr (sm, mx'))
         | None \<Rightarrow> Inr (sm, mx))
      else Inr (sm, mx))"

subsection \<open>InputManager\<close>

text \<open>Key identifiers are pygame's integers.\<close>

definition K_LEFT :: int where "K_LEFT = 1073741904"
definition K_RIGHT :: int where "K_RIGHT = 1073741903"
definition K_UP :: int where "K_UP = 1073741906"
definition K_DOWN :: int where "K_DOWN = 1073741905"
definition K_a :: int where "K_a = 97"
definition K_d :: int where "K_d = 100"
definition K_w :: int where "K_w = 119"
definition K_s :: int where "K_s = 115"

datatype event = KEYDOWN int | KEYUP int | OTHER_EVENT

record InputManager =
  keys_pressed :: "int set"
  keys_just_pressed :: "int set"

fun handle_event :: "event \<Rightarrow> InputManager \<Rightarrow> InputManager" where
  "handle_event (KEYDOWN k) im =
     im\<lparr>keys_pressed := insert k (keys_pressed im),
        keys_just_pressed := insert k (keys_just_pressed im)\<rparr>"
| "handle_event (KEYUP k) im =
     (if k \<in> keys_pressed im then im\<lparr>keys_pressed := keys_pressed im - {k}\<rparr> else im)"
| "handle_event OTHER_EVENT im = im"

definition InputManager_update :: "event list \<Rightarrow> InputManager \<Rightarrow> InputManager" where
  "InputManager_update events im = fold handle_event events (im\<lparr>keys_just_pressed := {}\<rparr>)"

definition is_key_down :: "InputManager \<Rightarrow> int \<Rightarrow> bool" where
  "is_key_down im k = (k \<in> keys_pressed im)"

definition was_key_just_pressed :: "InputManager \<Rightarrow> int \<Rightarrow> bool" where
  "was_key_just_pressed im k = (k \<in> keys_just_pressed im)"

subsection \<open>ParticleSystem\<close>

text \<open>A particle is the five-element list \<^verbatim>\<open>[pos, vel, lifetime, lifetime, color]\<close>; the
  fields are named as \<^verbatim>\<open>draw\<close> unpacks them.\<close>

record Particle =
  p_pos :: Vector2
  p_vel :: Vector2
  p_lifetime :: real
  p_max_lifetime :: real
  p_color :: colour

record ParticleSystem =
  particles :: "Particle list"

definition ParticleSystem_init :: ParticleSystem where
  "ParticleSystem_init = \<lparr>particles = []\<rparr>"

fun emit_loop ::
  "nat \<Rightarrow> Vector2 \<Rightarrow> colour \<Rightarrow> real \<times> real \<Rightarrow> real \<times> real \<Rightarrow> rng \<Rightarrow> Particle list
     \<Rightarrow> Particle list \<times> rng" where
  "emit_loop 0 pos col speed_range lifetime_range g ps = (ps, g)"
| "emit_loop (Suc n) pos col speed_range lifetime_range g ps =
     (let (angle, g1) = random_uniform 0 (2 * pi) g;
          (spd, g2) = random_uniform (fst speed_range) (snd speed_range) g1;
          vel = \<lparr>x = cos angle * spd, y = sin angle * spd\<rparr>;
          (lifetime, g3) = random_uniform (fst lifetime_range) (snd lifetime_range) g2
      in emit_loop n pos col speed_range lifetime_range g3
           (ps @ [\<lparr>p_pos = pos, p_vel = vel, p_lifetime = lifetime,
                   p_max_lifetime = lifetime, p_color = col\<rparr>]))"

text \<open>\<^verbatim>\<open>for _ in range(count)\<close>: a count below 1 emits nothing.\<close>

definition emit ::
  "Vector2 \<Rightarrow> colour \<Rightarrow> int \<Rightarrow> real \<times> real \<Rightarrow> real \<times> real \<Rightarrow> rng \<Rightarrow> ParticleSystem
     \<Rightarrow> ParticleSystem \<times> rng" where
  "emit pos col count speed_range lifetime_range g psys =
     (let (ps, g') = emit_loop (nat count) pos col speed_range lifetime_range g (particles psys)
      in (psys\<lparr>particles := ps\<rparr>, g'))"

text \<open>The first loop of \<^verbatim>\<open>update\<close>, on one particle: \<^verbatim>\<open>p[0] += p[1] * dt\<close> (with the
  velocity as it is before gravity), \<^verbatim>\<open>p[1].y += 100 * dt\<close>, \<^verbatim>\<open>p[2] -= dt\<close>. The last is
  the float subtraction, rounded.\<close>

definition particle_step :: "real \<Rightarrow> Particle \<Rightarrow> Particle" where
  "particle_step dt p =
     p\<lparr>p_pos := Vector2_add (p_pos p) (Vector2_mul (p_vel p) dt),
       p_vel := (p_vel p)\<lparr>y := y (p_vel p) + 100 * dt\<rparr>,
       p_lifetime := float_sub (p_lifetime p) dt\<rparr>"

definition ParticleSystem_update :: "real \<Rightarrow> ParticleSystem \<Rightarrow> ParticleSystem" where
  "ParticleSystem_update dt psys =
     psys\<lparr>particles := filter (\<lambda>p. p_lifetime p > 0) (map (particle_step dt) (particles psys))\<rparr>"

subsection \<open>Pellet\<close>

record Pellet =
  position :: Vector2
  is_power :: bool
  points :: int
  eaten :: bool
  animation_timer :: real

definition Pellet_init :: "Vector2 \<Rightarrow> bool \<Rightarrow> rng \<Rightarrow> Pellet \<times> rng" where
  "Pellet_init pos pw g =
     (let (t, g') = random_uniform 0 (2 * pi) g
      in (\<lparr>position = pos, is_power = pw, points = (if pw then 50 else 10),
            eaten = False, animation_timer = t\<rparr>, g'))"

subsection \<open>Maze: the layout and the wall lookup\<close>

definition LAYOUT :: "string list" where
  "LAYOUT =
    [''11111111111111111111111'',
     ''1P..........1..........P1'',
     ''1.111.11111.1.11111.111.1'',
     ''1.111.11111.1.11111.111.1'',
     ''1.......................1'',
     ''1.111.1.1111111.1.111.1'',
     ''1.....1...1...1...1.....1'',
     ''11111.111.1.111.11111'',
     ''    1.1   G   1.1    '',
     ''11111.1 11111 1.11111'',
     ''1.......1   1.......1'',
     ''11111.1 11S11 1.11111'',
     ''    1.1       1.1    '',
     ''11111.1 11111 1.11111'',
     ''1...........1...........1'',
     ''1.111.11111.1.11111.111.1'',
     ''1...P...1...1...1...P...1'',
     ''111.111.1.11111.1.111.111'',
     ''1.......1...1...1.......1'',
     ''1.111111111.1111111111.1'',
     ''1P.....................P1'',
     ''11111111111111111111111'']"

text \<open>The maze after \<^verbatim>\<open>__init__\<close>. The attribute \<^verbatim>\<open>particle_system\<close> is a reference to
  the scene's particle system; the method that writes to it takes it and returns it.
  \<^verbatim>\<open>background_surface\<close> is a pygame surface and is left out.\<close>

record Maze =
  pellets :: "Pellet list"
  player_start_pos :: Vector2
  ghost_start_positions :: "(string \<times> Vector2) list"
  ghost_house_exit :: Vector2
  layout_str :: "string list"

definition grid_to_world :: "int \<times> int \<Rightarrow> Vector2" where
  "grid_to_world grid_pos =
     \<lparr>x = of_int (MAZE_OFFSET_X + fst grid_pos * CELL_SIZE) + of_int CELL_SIZE / 2,
      y = of_int (MAZE_OFFSET_Y + snd grid_pos * CELL_SIZE) + of_int CELL_SIZE / 2\<rparr>"

definition world_to_grid :: "Vector2 \<Rightarrow> int \<times> int" where
  "world_to_grid world_pos =
     (let c = py_int ((x world_pos - of_int MAZE_OFFSET_X) / of_int CELL_SIZE);
          r = py_int ((y world_pos - of_int MAZE_OFFSET_Y) / of_int CELL_SIZE)
      in (c, r))"

text \<open>The square \<^verbatim>\<open>_pre_render_maze\<close> draws for the cell in column \<open>c\<close> of row \<open>r\<close>:
  \<^verbatim>\<open>Rect(left, top, width, height)\<close>.\<close>

definition cell_rect :: "int \<times> int \<Rightarrow> int \<times> int \<times> int \<times> int" where
  "cell_rect grid_pos =
     (MAZE_OFFSET_X + fst grid_pos * CELL_SIZE, MAZE_OFFSET_Y + snd grid_pos * CELL_SIZE,
      CELL_SIZE, CELL_SIZE)"

text \<open>\<^verbatim>\<open>Maze.is_wall\<close>: \<^verbatim>\<open>r, c = grid_pos[1], grid_pos[0]\<close>, then
  \<^verbatim>\<open>not (0 <= r < len(layout) and 0 <= c < len(layout[0]) and layout[r][c] != '1')\<close>.
  The conjunction is evaluated left to right and stops at the first false operand; the
  column bound is the length of row 0, the character read is in row \<open>r\<close>.\<close>

definition is_wall :: "'a Maze_scheme \<Rightarrow> int \<times> int \<Rightarrow> py_error + bool" where
  "is_wall mz grid_pos =
     (let r = snd grid_pos; c = fst grid_pos in
      if 0 \<le> r \<and> r < int (length (layout_str mz)) then
        bind_err (getitem (layout_str mz) 0) (\<lambda>row0.
          if 0 \<le> c \<and> c < int (length row0) then
            bind_err (getitem (layout_str mz) r) (\<lambda>row.
              bind_err (getitem row c) (\<lambda>ch. Inr (\<not> (ch \<noteq> CHR ''1''))))
          else Inr True)
      else Inr True)"

text \<open>\<^verbatim>\<open>_parse_layout\<close>. A dictionary keeps its keys in insertion order; storing under a
  key it has replaces the value in place.\<close>

fun dict_set :: "'k \<Rightarrow> 'v \<Rightarrow> ('k \<times> 'v) list \<Rightarrow> ('k \<times> 'v) list" where
  "dict_set k v [] = [(k, v)]"
| "dict_set k v (kv # rest) = (if fst kv = k then (k, v) # rest else kv # dict_set k v rest)"

record parse_state =
  ps_pellets :: "Pellet list"
  ps_player_start_pos :: "Vector2 option"
  ps_ghost_start_positions :: "(string \<times> Vector2) list"
  ps_ghost_spawn_index :: int
  ps_random :: rng

definition ghost_names :: "string list" where
  "ghost_names = [''blinky'', ''pinky'', ''inky'', ''clyde'']"

definition parse_cell :: "int \<Rightarrow> int \<Rightarrow> char \<Rightarrow> parse_state \<Rightarrow> parse_state" where
  "parse_cell r c ch st =
     (let pos = \<lparr>x = of_int (MAZE_OFFSET_X + c * CELL_SIZE) + of_int CELL_SIZE / 2,
                 y = of_int (MAZE_OFFSET_Y + r * CELL_SIZE) + of_int CELL_SIZE / 2\<rparr>
      in if ch = CHR ''.'' then
           (let (pl, g) = Pellet_init pos False (ps_random st)
            in st\<lparr>ps_pellets := ps_pellets st @ [pl], ps_random := g\<rparr>)
         else if ch = CHR ''P'' then
           (let (pl, g) = Pellet_init pos True (ps_random st)
            in st\<lparr>ps_pellets := ps_pellets st @ [pl], ps_random := g\<rparr>)
         else if ch = CHR ''S'' then st\<lparr>ps_player_start_pos := Some pos\<rparr>
         else if ch = CHR ''G'' then
           (let ghost_name = ghost_names ! nat (ps_ghost_spawn_index st mod 4)
            in st\<lparr>ps_ghost_start_positions :=
                    dict_set ghost_name pos (ps_ghost_start_positions st),
                  ps_ghost_spawn_index := ps_ghost_spawn_index st + 1\<rparr>)
         else st)"

fun parse_row :: "int \<Rightarrow> int \<Rightarrow> string \<Rightarrow> parse_state \<Rightarrow> parse_state" where
  "parse_row r c [] st = st"
| "parse_row r c (ch # row) st = parse_row r (c + 1) row (parse_cell r c ch st)"

fun parse_rows :: "int \<Rightarrow> string list \<Rightarrow> parse_state \<Rightarrow> parse_state" where
  "parse_rows r [] st = st"
| "parse_rows r (row # rows) st = parse_rows (r + 1) rows (parse_row r 0 row st)"

text \<open>\<^verbatim>\<open>Maze.__init__\<close>: the layout is \<open>LAYOUT\<close>; a layout with no \<^verbatim>\<open>S\<close> puts the player
  at the cell \<open>(11, 16)\<close>.\<close>

definition Maze_init :: "rng \<Rightarrow> Maze \<times> rng" where
  "Maze_init g =
     (let st = parse_rows 0 LAYOUT
                 \<lparr>ps_pellets = [], ps_player_start_pos = None, ps_ghost_start_positions = [],
                  ps_ghost_spawn_index = 0, ps_random = g\<rparr>
      in (\<lparr>pellets = ps_pellets st,
            player_start_pos =
              (case ps_player_start_pos st of None \<Rightarrow> grid_to_world (11, 16) | Some pos \<Rightarrow> pos),
            ghost_start_positions = ps_ghost_start_positions st,
            ghost_house_exit = grid_to_world (11, 8),
            layout_str = LAYOUT\<rparr>,
          ps_random st))"

subsection \<open>Entity, Player and Ghost\<close>

record Entity =
  position :: Vector2
  start_pos :: Vector2
  velocity :: Vector2
  direction :: Direction
  speed :: real

definition get_grid_pos :: "'a Entity_scheme \<Rightarrow> int \<times> int" where
  "get_grid_pos e =
     (py_int ((x (Entity.position e) - of_int MAZE_OFFSET_X) / of_int CELL_SIZE),
      py_int ((y (Entity.position e) - of_int MAZE_OFFSET_Y) / of_int CELL_SIZE))"

definition is_centered :: "'a Entity_scheme \<Rightarrow> bool" where
  "is_centered e =
     (let offset_x = py_mod (x (Entity.position e) - of_int MAZE_OFFSET_X) (of_int CELL_SIZE);
          offset_y = py_mod (y (Entity.position e) - of_int MAZE_OFFSET_Y) (of_int CELL_SIZE)
      in \<bar>offset_x - of_int CELL_SIZE / 2\<bar> < 3 \<and> \<bar>offset_y - of_int CELL_SIZE / 2\<bar> < 3)"

text \<open>\<^verbatim>\<open>check_pellet_collision\<close>: the scan of the pellets, with the score, the flag, the
  particle system and the generator carried along.\<close>

fun collide_loop ::
  "'a Entity_scheme \<Rightarrow> Pellet list \<Rightarrow> int \<Rightarrow> bool \<Rightarrow> ParticleSystem \<Rightarrow> rng
     \<Rightarrow> Pellet list \<times> int \<times> bool \<times> ParticleSystem \<times> rng" where
  "collide_loop pl [] sc power_pellet_eaten psys g = ([], sc, power_pellet_eaten, psys, g)"
| "collide_loop pl (pellet # rest) sc power_pellet_eaten psys g =
     (if \<not> eaten pellet
         \<and> distance_to (Entity.position pl) (Pellet.position pellet) < of_int CELL_SIZE / 2
      then
        (let (psys', g') = emit (Pellet.position pellet) COLOR_YELLOW 5 (20, 80) (0.2, 0.5) g psys;
             (rest', res) =
               collide_loop pl rest (sc + points pellet)
                 (if is_power pellet then True else power_pellet_eaten) psys' g'
         in (pellet\<lparr>eaten := True\<rparr> # rest', res))
      else
        (let (rest', res) = collide_loop pl rest sc power_pellet_eaten psys g
         in (pellet # rest', res)))"

definition check_pellet_collision ::
  "'a Entity_scheme \<Rightarrow> rng \<Rightarrow> ParticleSystem \<Rightarrow> Maze
     \<Rightarrow> (int \<times> bool) \<times> Maze \<times> ParticleSystem \<times> rng" where
  "check_pellet_collision pl g psys mz =
     (let (pellets', sc, power_pellet_eaten, psys', g') = collide_loop pl (pellets mz) 0 False psys g
      in ((sc, power_pellet_eaten), mz\<lparr>pellets := pellets'\<rparr>, psys', g'))"

record Player = Entity +
  next_direction :: Direction
  lives :: int
  is_invulnerable :: bool
  invulnerable_timer :: real
  mouth_angle :: real
  is_mouth_opening :: bool

definition Player_init :: "Vector2 \<Rightarrow> Player" where
  "Player_init pos =
     \<lparr>position = pos, start_pos = pos, velocity = \<lparr>x = 0, y = 0\<rparr>, direction = LEFT,
      speed = PLAYER_SPEED, next_direction = LEFT, lives = 3, is_invulnerable = False,
      invulnerable_timer = 0, mouth_angle = 0, is_mouth_opening = True\<rparr>"

definition handle_input :: "InputManager \<Rightarrow> Player \<Rightarrow> Player" where
  "handle_input im p =
     (if is_key_down im K_LEFT \<or> is_key_down im K_a then p\<lparr>next_direction := LEFT\<rparr>
      else if is_key_down im K_RIGHT \<or> is_key_down im K_d then p\<lparr>next_direction := RIGHT\<rparr>
      else if is_key_down im K_UP \<or> is_key_down im K_w then p\<lparr>next_direction := UP\<rparr>
      else if is_key_down im K_DOWN \<or> is_key_down im K_s then p\<lparr>next_direction := DOWN\<rparr>
      else p)"

text \<open>\<^verbatim>\<open>Player._move\<close>. The second test is \<^verbatim>\<open>maze.is_wall(...) and self.is_centered()\<close>:
  the wall lookup comes first and is made whether or not the player is centered.\<close>

definition commit_next_direction :: "'a Maze_scheme \<Rightarrow> Player \<Rightarrow> py_error + Player" where
  "commit_next_direction mz p =
     (if is_centered p then
        (let (c, r) = get_grid_pos p; (ndx, ndy) = dir_value (next_direction p)
         in bind_err (is_wall mz (c + ndx, r + ndy)) (\<lambda>w.
              Inr (if \<not> w then p\<lparr>direction := next_direction p\<rparr> else p)))
      else Inr p)"

definition Player_move :: "real \<Rightarrow> 'a Maze_scheme \<Rightarrow> Player \<Rightarrow> py_error + Player" where
  "Player_move dt mz p =
     bind_err (commit_next_direction mz p) (\<lambda>p1.
       let (c, r) = get_grid_pos p1; (dx, dy) = dir_value (direction p1)
       in bind_err (is_wall mz (c + dx, r + dy)) (\<lambda>w.
            let p2 = (if w \<and> is_centered p1 then p1\<lparr>velocity := \<lparr>x = 0, y = 0\<rparr>\<rparr>
                      else p1\<lparr>velocity := \<lparr>x = of_int dx * speed p1, y = of_int dy * speed p1\<rparr>\<rparr>)
            in Inr (p2\<lparr>position := Vector2_add (Entity.position p2) (Vector2_mul (velocity p2) dt)\<rparr>)))"

definition animate_mouth :: "real \<Rightarrow> Player \<Rightarrow> Player" where
  "animate_mouth dt p =
     (if Vector2_length (velocity p) > 0 then
        (let rate = 450 * dt in p\<lparr>mouth_angle := py_mod (mouth_angle p + rate) 90\<rparr>)
      else p\<lparr>mouth_angle := 0\<rparr>)"

definition Player_update ::
  "real \<Rightarrow> InputManager \<Rightarrow> 'a Maze_scheme \<Rightarrow> Player \<Rightarrow> py_error + Player" where
  "Player_update dt im mz p =
     bind_err (Player_move dt mz (handle_input im p)) (\<lambda>p1.
       let p2 = animate_mouth dt p1
       in Inr (if is_invulnerable p2 then
                 (let p3 = p2\<lparr>invulnerable_timer := invulnerable_timer p2 - dt\<rparr>
                  in if invulnerable_timer p3 \<le> 0 then p3\<lparr>is_invulnerable := False\<rparr> else p3)
               else p2))"

definition lose_life :: "Player \<Rightarrow> Player" where
  "lose_life p =
     p\<lparr>lives := lives p - 1, is_invulnerable := True,
       invulnerable_timer := PLAYER_INVULNERABILITY_DURATION\<rparr>"

definition reset :: "Player \<Rightarrow> Player" where
  "reset p = p\<lparr>position := start_pos p, direction := LEFT, next_direction := LEFT\<rparr>"

record Ghost = Entity +
  color :: colour
  name :: string

definition Ghost_init :: "Vector2 \<Rightarrow> colour \<Rightarrow> string \<Rightarrow> Ghost" where
  "Ghost_init pos col nm =
     \<lparr>position = pos, start_pos = pos, velocity = \<lparr>x = 0, y = 0\<rparr>, direction = UP,
      speed = GHOST_SPEED, color = col, name = nm\<rparr>"

text \<open>\<^verbatim>\<open>Ghost.update\<close>, in three parts: the loop over the four directions that collects
  the non-wall neighbours; the no-backtrack filter; the choice and the move.\<close>

fun open_directions ::
  "'a Maze_scheme \<Rightarrow> int \<times> int \<Rightarrow> Direction list \<Rightarrow> py_error + Direction list" where
  "open_directions mz cr [] = Inr []"
| "open_directions mz cr (d # ds) =
     (let (c, r) = cr; (dx, dy) = dir_value d
      in bind_err (is_wall mz (c + dx, r + dy)) (\<lambda>w.
           bind_err (open_directions mz cr ds) (\<lambda>rest.
             Inr (if \<not> w then d # rest else rest))))"

definition possible_directions :: "'a Maze_scheme \<Rightarrow> 'b Entity_scheme \<Rightarrow> py_error + Direction list" where
  "possible_directions mz e = open_directions mz (get_grid_pos e) [UP, DOWN, LEFT, RIGHT]"

definition prevent_going_back :: "Direction \<Rightarrow> Direction list \<Rightarrow> py_error + Direction list" where
  "prevent_going_back dir possible_dirs =
     (if dir \<in> set possible_dirs \<and> length possible_dirs > 1 then
        bind_err (Direction_of (- fst (dir_value dir), - snd (dir_value dir))) (\<lambda>rev_dir.
          Inr (if rev_dir \<in> set possible_dirs then remove1 rev_dir possible_dirs
               else possible_dirs))
      else Inr possible_dirs)"

definition ghost_candidates :: "'a Maze_scheme \<Rightarrow> Ghost \<Rightarrow> py_error + Direction list" where
  "ghost_candidates mz gh =
     bind_err (possible_directions mz gh) (prevent_going_back (direction gh))"

definition choose_direction :: "'a Maze_scheme \<Rightarrow> nat \<Rightarrow> Ghost \<Rightarrow> py_error + Ghost" where
  "choose_direction mz i gh =
     (if is_centered gh then
        bind_err (ghost_candidates mz gh) (\<lambda>possible_dirs.
          if possible_dirs \<noteq> [] then
            bind_err (random_choice possible_dirs i) (\<lambda>d. Inr (gh\<lparr>direction := d\<rparr>))
          else Inr gh)
      else Inr gh)"

definition Ghost_update :: "real \<Rightarrow> 'a Maze_scheme \<Rightarrow> nat \<Rightarrow> Ghost \<Rightarrow> py_error + Ghost" where
  "Ghost_update dt mz i gh =
     bind_err (choose_direction mz i gh) (\<lambda>g1.
       let (dx, dy) = dir_value (direction g1);
           g2 = g1\<lparr>velocity := \<lparr>x = of_int dx * speed g1, y = of_int dy * speed g1\<rparr>\<rparr>
       in Inr (g2\<lparr>position := Vector2_add (Entity.position g2) (Vector2_mul (velocity g2) dt)\<rparr>))"

subsection \<open>Scenes and the engine\<close>

record MainMenuScene =
  options :: "string list"
  selected_option :: int

record GameScene =
  particle_system :: ParticleSystem
  maze :: Maze
  player :: Player
  ghosts :: "Ghost list"
  score :: int
  is_power_pellet_active :: bool
  power_pellet_timer :: real

datatype Scene = MainMenu MainMenuScene | Game GameScene

datatype GameState = MAIN_MENU | PLAYING | PAUSED | GAME_OVER | LEVEL_TRANSITION

fun state_name :: "GameState \<Rightarrow> string" where
  "state_name MAIN_MENU = ''MAIN_MENU''"
| "state_name PLAYING = ''PLAYING''"
| "state_name PAUSED = ''PAUSED''"
| "state_name GAME_OVER = ''GAME_OVER''"
| "state_name LEVEL_TRANSITION = ''LEVEL_TRANSITION''"

text \<open>What lies outside the engine object: the audio device, the standard output and
  the state of the random generator.\<close>

record World =
  audio :: mixer
  stdout :: "string list"
  random_state :: rng

definition MainMenuScene_init ::
  "(Sound \<Rightarrow> int \<Rightarrow> mixer \<Rightarrow> py_error + mixer) \<Rightarrow> SoundManager \<Rightarrow> mixer
     \<Rightarrow> py_error + (MainMenuScene \<times> SoundManager \<times> mixer)" where
  "MainMenuScene_init device_play sm mx =
     bind_err (play device_play ''intro'' 0 sm mx) (\<lambda>(sm', mx').
       Inr (\<lparr>options = [''Start Game'', ''Quit''], selected_option = 0\<rparr>, sm', mx'))"

definition GameScene_init :: "rng \<Rightarrow> GameScene \<times> rng" where
  "GameScene_init g =
     (let psys = ParticleSystem_init;
          (mz, g') = Maze_init g;
          pl = Player_init (player_start_pos mz);
          gs = map (\<lambda>(nm, pos). Ghost_init pos COLOR_RED nm) (ghost_start_positions mz)
      in (\<lparr>particle_system = psys, maze = mz, player = pl, ghosts = gs, score = 0,
            is_power_pellet_active = False, power_pellet_timer = 0\<rparr>, g'))"

text \<open>The engine. Scene objects live in a store (\<open>heap\<close>, addressed by index, a new object
  appended); the registry \<open>scenes\<close> and \<open>current_scene\<close> hold addresses, as the Python
  attributes hold references. The sound manager \<^verbatim>\<open>SoundManager()\<close> builds is an argument
  of the constructor.\<close>

record GameEngine =
  running :: bool
  sound_manager :: SoundManager
  input_manager :: InputManager
  heap :: "Scene list"
  scenes :: "GameState \<rightharpoonup> nat"
  current_state :: GameState
  current_scene :: nat

definition GameEngine_init ::
  "(Sound \<Rightarrow> int \<Rightarrow> mixer \<Rightarrow> py_error + mixer) \<Rightarrow> SoundManager \<Rightarrow> World
     \<Rightarrow> py_error + (GameEngine \<times> World)" where
  "GameEngine_init device_play sm w =
     bind_err (MainMenuScene_init device_play sm (audio w)) (\<lambda>(menu, sm', mx').
       let (gs, g') = GameScene_init (random_state w);
           registry = [MAIN_MENU \<mapsto> 0, PLAYING \<mapsto> 1]
       in (case registry MAIN_MENU of
             None \<Rightarrow> Inl KeyError
           | Some a \<Rightarrow>
               Inr (\<lparr>running = True, sound_manager = sm',
                     input_manager = \<lparr>keys_pressed = {}, keys_just_pressed = {}\<rparr>,
                     heap = [MainMenu menu, Game gs], scenes = registry,
                     current_state = MAIN_MENU, current_scene = a\<rparr>,
                    w\<lparr>audio := mx', random_state := g'\<rparr>)))"

definition change_state :: "GameState \<Rightarrow> GameEngine \<Rightarrow> World \<Rightarrow> py_error + (GameEngine \<times> World)" where
  "change_state new_state e w =
     (if new_state \<in> dom (scenes e) then
        (let (e1, w1) =
               (if new_state = PLAYING then
                  (let (gs, g') = GameScene_init (random_state w)
                   in (e\<lparr>heap := heap e @ [Game gs],
                          scenes := (scenes e)(PLAYING \<mapsto> length (heap e))\<rparr>,
                       w\<lparr>random_state := g'\<rparr>))
                else (e, w));
             e2 = e1\<lparr>current_state := new_state\<rparr>
         in (case scenes e2 new_state of
               None \<Rightarrow> Inl KeyError
             | Some a \<Rightarrow> Inr (e2\<lparr>current_scene := a\<rparr>, w1)))
      else
        Inr (e, w\<lparr>stdout := stdout w
                     @ [''Warning: Tried to change to unhandled state '' @ state_name new_state]\<rparr>))"

text \<open>The object a reference of the engine points to.\<close>

definition scene_at :: "GameEngine \<Rightarrow> nat \<Rightarrow> py_error + Scene" where
  "scene_at e a = getitem (heap e) (int a)"

section \<open>Properties\<close>

lemma layout_str_Maze_init: "layout_str (fst (Maze_init g)) = LAYOUT"
  by (simp add: Maze_init_def Let_def)

lemma length_LAYOUT: "length LAYOUT = 22"
  by (simp add: LAYOUT_def)

text \<open>
  The bounds of the wall lookup are the number of rows and the length of row 0. A cell
  outside them is a wall, whatever the rows hold: no row is read.
\<close>

theorem is_wall_out_of_bounds:
  "r < 0 \<or> int (length (layout_str mz)) \<le> r \<or> c < 0 \<or> int (length (hd (layout_str mz))) \<le> c
   \<Longrightarrow> is_wall mz (c, r) = Inr True"
  by (cases "layout_str mz") (auto simp: is_wall_def getitem_def bind_err_def Let_def)

theorem is_wall_out_of_bounds_witness:
  "int (length (hd (layout_str (fst (Maze_init (\<lambda>n. 0)))))) \<le> 23
   \<and> is_wall (fst (Maze_init (\<lambda>n. 0))) (23, 1) = Inr True
   \<and> (- 1 :: int) < 0
   \<and> is_wall (fst (Maze_init (\<lambda>n. 0))) (- 1, 8) = Inr True"
  using is_wall_out_of_bounds [of 1 "fst (Maze_init (\<lambda>n. 0))" 23]
    is_wall_out_of_bounds [of 8 "fst (Maze_init (\<lambda>n. 0))" "- 1"]
  by (simp add: layout_str_Maze_init LAYOUT_def)

text \<open>
  Claim C1. Every cell outside the maze bounds is a wall, and \<open>is_wall\<close> never raises.
  The first half holds, by the theorem above. The second half fails on the maze the
  program ships: the rows of \<open>LAYOUT\<close> have different lengths (row 0 has 23 characters,
  rows 7 to 13 have 21), the column bound is taken from row 0, and so the cell
  \<open>(21, 7)\<close> passes both bound checks and the read \<^verbatim>\<open>layout_str[7][21]\<close> raises
  \<^verbatim>\<open>IndexError\<close>.
\<close>

theorem is_wall_raises_on_short_row: "is_wall (fst (Maze_init g)) (21, 7) = Inl IndexError"
  by (simp add: is_wall_def layout_str_Maze_init getitem_def bind_err_def LAYOUT_def)

subsection \<open>Float rounding\<close>

text \<open>Rounding is monotone and keeps the sign; it leaves a number of 53 significant bits
  as it is. So a float subtraction of a non-negative \<open>dt\<close> from a float never gives
  more than the float, and gives less as soon as \<open>dt\<close> reaches the spacing of the floats
  at it.\<close>

lemma rhe_of_int [simp]: "round_half_even (of_int n) = n"
  by (simp add: round_half_even_def)

lemma rhe_pow2 [simp]: "round_half_even (2 ^ n) = 2 ^ n"
  using rhe_of_int [of "2 ^ n"] by simp

lemma rhe_bounds: "\<lfloor>v\<rfloor> \<le> round_half_even v \<and> round_half_even v \<le> \<lfloor>v\<rfloor> + 1"
  by (simp add: round_half_even_def Let_def)

lemma rhe_mono: "a \<le> b \<Longrightarrow> round_half_even a \<le> round_half_even b"
proof -
  assume ab: "a \<le> b"
  then have fl: "\<lfloor>a\<rfloor> \<le> \<lfloor>b\<rfloor>" by (rule floor_mono)
  show ?thesis
  proof (cases "\<lfloor>a\<rfloor> = \<lfloor>b\<rfloor>")
    case True
    then have "a - of_int \<lfloor>a\<rfloor> \<le> b - of_int \<lfloor>b\<rfloor>" using ab by simp
    then show ?thesis using True by (auto simp: round_half_even_def Let_def)
  next
    case False
    with fl have "\<lfloor>a\<rfloor> + 1 \<le> \<lfloor>b\<rfloor>" by simp
    with rhe_bounds [of a] rhe_bounds [of b] show ?thesis by linarith
  qed
qed

text \<open>A positive number lies between two consecutive powers of two.\<close>

lemma binade:
  assumes "0 < v"
  shows "2 powr of_int \<lfloor>log 2 v\<rfloor> \<le> v" "v < 2 powr of_int (\<lfloor>log 2 v\<rfloor> + 1)"
  using floor_log_eq_powr_iff [of v 2 "\<lfloor>log 2 v\<rfloor>"] assms by auto

lemma scaled_range:
  assumes "0 < v"
  defines "u \<equiv> 2 powr of_int (\<lfloor>log 2 v\<rfloor> - 52)"
  shows "2 ^ 52 \<le> v / u" "v / u < 2 ^ 53" "0 < u"
proof -
  have u: "0 < u" by (simp add: u_def)
  have e1: "2 powr of_int \<lfloor>log 2 v\<rfloor> = u * 2 ^ 52"
    unfolding u_def by (simp add: powr_diff)
  have e2: "2 powr of_int (\<lfloor>log 2 v\<rfloor> + 1) = u * 2 ^ 53"
    unfolding u_def by (simp add: powr_diff powr_add)
  from binade [OF assms(1)] e1 e2 have "u * 2 ^ 52 \<le> v" "v < u * 2 ^ 53" by simp_all
  then show "2 ^ 52 \<le> v / u" "v / u < 2 ^ 53" using u
    by (simp_all add: pos_le_divide_eq pos_divide_less_eq mult.commute)
  show "0 < u" by (rule u)
qed

lemma rhe_scaled_range:
  assumes "0 < v"
  shows "2 ^ 52 \<le> round_half_even (v / 2 powr of_int (\<lfloor>log 2 v\<rfloor> - 52))"
    "round_half_even (v / 2 powr of_int (\<lfloor>log 2 v\<rfloor> - 52)) \<le> 2 ^ 53"
proof -
  let ?q = "v / 2 powr of_int (\<lfloor>log 2 v\<rfloor> - 52)"
  note r = scaled_range [OF assms]
  have "round_half_even (2 ^ 52) \<le> round_half_even ?q"
    using r(1) by (intro rhe_mono)
  then show "2 ^ 52 \<le> round_half_even ?q" by (simp only: rhe_pow2)
  have "round_half_even ?q \<le> round_half_even (2 ^ 53)"
    using r(2) by (intro rhe_mono) simp
  then show "round_half_even ?q \<le> 2 ^ 53" by (simp only: rhe_pow2)
qed

lemma round_double_pos:
  "0 < v \<Longrightarrow> round_double v
     = 2 powr of_int (\<lfloor>log 2 v\<rfloor> - 52) * of_int (round_half_even (v / 2 powr of_int (\<lfloor>log 2 v\<rfloor> - 52)))"
  by (simp add: round_double_def Let_def)

lemma round_double_minus: "round_double (- v) = - round_double v"
  by (simp add: round_double_def Let_def sgn_minus)

lemma round_double_pos_bounds:
  assumes "0 < v"
  shows "2 powr of_int \<lfloor>log 2 v\<rfloor> \<le> round_double v"
    "round_double v \<le> 2 powr of_int (\<lfloor>log 2 v\<rfloor> + 1)"
proof -
  let ?u = "2 powr of_int (\<lfloor>log 2 v\<rfloor> - 52) :: real"
  let ?n = "round_half_even (v / ?u)"
  have u: "0 < ?u" by simp
  have e1: "2 powr of_int \<lfloor>log 2 v\<rfloor> = ?u * 2 ^ 52" by (simp add: powr_diff)
  have e2: "2 powr of_int (\<lfloor>log 2 v\<rfloor> + 1) = ?u * 2 ^ 53" by (simp add: powr_diff powr_add)
  from rhe_scaled_range [OF assms] have "(2::real) ^ 52 \<le> of_int ?n" "of_int ?n \<le> (2::real) ^ 53"
    by (metis of_int_le_iff of_int_numeral of_int_power)+
  then have "?u * 2 ^ 52 \<le> ?u * of_int ?n" "?u * of_int ?n \<le> ?u * 2 ^ 53"
    using u by simp_all
  then show "2 powr of_int \<lfloor>log 2 v\<rfloor> \<le> round_double v"
    "round_double v \<le> 2 powr of_int (\<lfloor>log 2 v\<rfloor> + 1)"
    unfolding round_double_pos [OF assms] e1 e2 by simp_all
qed

lemma round_double_pos_gt0: "0 < v \<Longrightarrow> 0 < round_double v"
  using round_double_pos_bounds(1) [of v] powr_gt_zero [of 2 "of_int \<lfloor>log 2 v\<rfloor>"]
  by linarith

lemma round_double_pos_mono:
  assumes "0 < a" "a \<le> b"
  shows "round_double a \<le> round_double b"
proof -
  have b: "0 < b" using assms by simp
  have le: "\<lfloor>log 2 a\<rfloor> \<le> \<lfloor>log 2 b\<rfloor>"
    using assms by (intro floor_mono) simp
  show ?thesis
  proof (cases "\<lfloor>log 2 a\<rfloor> = \<lfloor>log 2 b\<rfloor>")
    case True
    let ?u = "2 powr of_int (\<lfloor>log 2 b\<rfloor> - 52) :: real"
    have "a / ?u \<le> b / ?u" using assms by (simp add: divide_right_mono)
    then have "round_half_even (a / ?u) \<le> round_half_even (b / ?u)" by (rule rhe_mono)
    then have "?u * of_int (round_half_even (a / ?u)) \<le> ?u * of_int (round_half_even (b / ?u))"
      by simp
    then show ?thesis
      unfolding round_double_pos [OF assms(1)] round_double_pos [OF b] True .
  next
    case False
    with le have "\<lfloor>log 2 a\<rfloor> + 1 \<le> \<lfloor>log 2 b\<rfloor>" by simp
    then have "(2::real) powr of_int (\<lfloor>log 2 a\<rfloor> + 1) \<le> 2 powr of_int \<lfloor>log 2 b\<rfloor>"
      by (intro powr_mono) simp_all
    with round_double_pos_bounds(2) [OF assms(1)] round_double_pos_bounds(1) [OF b]
    show ?thesis by linarith
  qed
qed

lemma round_double_mono: "a \<le> b \<Longrightarrow> round_double a \<le> round_double b"
proof -
  assume ab: "a \<le> b"
  consider "0 < a" | "a \<le> 0 \<and> 0 \<le> b" | "b < 0" using ab by linarith
  then show ?thesis
  proof cases
    case 1
    then show ?thesis using ab by (rule round_double_pos_mono)
  next
    case 2
    have "round_double a \<le> 0"
    proof (cases "a = 0")
      case True then show ?thesis by (simp add: round_double_def)
    next
      case False
      with 2 have "0 < - a" by simp
      from round_double_pos_gt0 [OF this] show ?thesis by (simp add: round_double_minus)
    qed
    moreover have "0 \<le> round_double b"
    proof (cases "b = 0")
      case True then show ?thesis by (simp add: round_double_def)
    next
      case False
      with 2 have "0 < b" by simp
      from round_double_pos_gt0 [OF this] show ?thesis by simp
    qed
    ultimately show ?thesis by simp
  next
    case 3
    then have "0 < - b" "- b \<le> - a" using ab by simp_all
    from round_double_pos_mono [OF this] show ?thesis by (simp add: round_double_minus)
  qed
qed

lemma round_double_sign: "round_double v \<le> 0 \<longleftrightarrow> v \<le> 0"
proof (cases "0 < v")
  case True
  with round_double_pos_gt0 [OF True] show ?thesis by simp
next
  case False
  then have "round_double v \<le> round_double 0" by (intro round_double_mono) simp
  then show ?thesis using False by (simp add: round_double_def)
qed

lemma floor_log2_normal:
  assumes "2 ^ 52 \<le> m" "m < 2 ^ 53"
  shows "\<lfloor>log 2 (of_int m * 2 powr of_int k)\<rfloor> = k + 52"
proof -
  have m: "(2::real) ^ 52 \<le> of_int m" "of_int m < (2::real) ^ 53"
    using assms by (metis of_int_le_iff of_int_numeral of_int_power,
        metis of_int_less_iff of_int_numeral of_int_power)
  have p: "0 < (2::real) powr of_int k" by simp
  have e1: "(2::real) powr of_int (k + 52) = 2 ^ 52 * 2 powr of_int k"
    by (simp add: powr_add)
  have e2: "(2::real) powr of_int (k + 52 + 1) = 2 ^ 53 * 2 powr of_int k"
    by (simp add: powr_add)
  have pos: "0 < of_int m * (2::real) powr of_int k"
    using m p by (intro mult_pos_pos) simp_all
  have "(2::real) powr of_int (k + 52) \<le> of_int m * 2 powr of_int k"
    unfolding e1 using m(1) p by (intro mult_right_mono) simp_all
  moreover have "of_int m * 2 powr of_int k < (2::real) powr of_int (k + 52 + 1)"
    unfolding e2 using m(2) p by (intro mult_strict_right_mono) simp_all
  ultimately show ?thesis
    using floor_log_eq_powr_iff [of "of_int m * 2 powr of_int k" 2 "k + 52"] pos by simp
qed

lemma round_double_normal:
  assumes "2 ^ 52 \<le> m" "m < 2 ^ 53"
  shows "round_double (of_int m * 2 powr of_int k) = of_int m * 2 powr of_int k"
proof -
  have "(0::int) < 2 ^ 52" by simp
  with assms(1) have "0 < m" by linarith
  then have m: "(0::real) < of_int m" by simp
  have pos: "0 < of_int m * (2::real) powr of_int k"
    using m by (intro mult_pos_pos) simp_all
  have q: "of_int m * 2 powr of_int k / 2 powr of_int k = (of_int m :: real)" by simp
  show ?thesis
    unfolding round_double_pos [OF pos] floor_log2_normal [OF assms]
    by (simp add: q)
qed

lemma is_double_pow2: "is_double (2 powr of_int k)"
  using round_double_normal [of "2 ^ 52" "k - 52"]
  by (simp add: is_double_def powr_diff)

lemma is_double_0: "is_double 0"
  by (simp add: is_double_def round_double_def)

lemma is_double_minus: "is_double v \<Longrightarrow> is_double (- v)"
  by (simp add: is_double_def round_double_minus)

lemma float_sub_le: "0 \<le> dt \<Longrightarrow> is_double a \<Longrightarrow> float_sub a dt \<le> a"
  using round_double_mono [of "a - dt" a] by (simp add: float_sub_def is_double_def)

lemma float_sub_sign: "float_sub a dt \<le> 0 \<longleftrightarrow> a \<le> dt"
  by (simp add: float_sub_def round_double_sign)

lemma float_sub_less:
  assumes a: "0 < a" "is_double a" and dt: "a \<le> 2 ^ 52 * dt"
  shows "float_sub a dt < a"
proof -
  let ?e = "\<lfloor>log 2 a\<rfloor>"
  let ?u = "2 powr of_int (?e - 52) :: real"
  let ?n = "round_half_even (a / ?u)"
  have u: "0 < ?u" by simp
  have an: "a = ?u * of_int ?n"
    using a by (simp add: is_double_def round_double_pos)
  have n_lo: "2 ^ 52 \<le> ?n" by (rule rhe_scaled_range(1) [OF a(1)])
  have "a / ?u < 2 ^ 53" by (rule scaled_range(2) [OF a(1)])
  moreover have "a / ?u = of_int ?n" using an u by (simp add: field_simps)
  ultimately have "(of_int ?n :: real) < 2 ^ 53" by simp
  then have n_hi: "?n < 2 ^ 53"
    by (metis of_int_less_iff of_int_numeral of_int_power)
  have "?u * 2 ^ 52 \<le> a" using scaled_range(1) [OF a(1)] u by (simp add: field_simps)
  with dt have udt: "?u \<le> dt" by simp
  define b where "b = ?u * of_int (?n - 1)"
  have b_lt: "b < a" using u by (subst an) (simp add: b_def)
  have "a - dt \<le> a - ?u" using udt by simp
  also have "a - ?u = b" by (subst an) (simp add: b_def algebra_simps)
  finally have le: "a - dt \<le> b" .
  have rb: "round_double b = b"
  proof (cases "2 ^ 52 \<le> ?n - 1")
    case True
    from round_double_normal [OF True, of "?e - 52"] n_hi show ?thesis
      by (simp add: b_def mult.commute)
  next
    case False
    with n_lo have n: "?n = 2 ^ 52" by simp
    have "b = of_int (2 ^ 53 - 2) * 2 powr of_int (?e - 53)"
      unfolding b_def n by (simp add: powr_diff)
    moreover have "round_double (of_int (2 ^ 53 - 2) * 2 powr of_int (?e - 53))
        = of_int (2 ^ 53 - 2) * 2 powr of_int (?e - 53)"
      by (rule round_double_normal) simp_all
    ultimately show ?thesis by simp
  qed
  have "float_sub a dt \<le> round_double b"
    unfolding float_sub_def using le by (rule round_double_mono)
  with rb b_lt show ?thesis by simp
qed

lemma pow2_neg: "(2::real) powr of_int (- int n) = 1 / 2 ^ n"
  by (simp add: powr_minus powr_realpow inverse_eq_divide)

lemma is_double_1: "is_double 1"
  using is_double_pow2 [of 0] by simp

lemma is_double_2: "is_double 2"
  using is_double_pow2 [of 1] by simp

lemma is_double_half: "is_double (1 / 2)"
  using is_double_pow2 [of "- int 1"] unfolding pow2_neg by simp

lemma is_double_tiny: "is_double (1 / 2 ^ 60)"
  using is_double_pow2 [of "- int 60"] unfolding pow2_neg by simp

lemma float_sub_2_1: "float_sub 2 1 = 1"
  using is_double_1 by (simp add: float_sub_def is_double_def)

lemma float_sub_half_1: "float_sub (1 / 2) 1 = - (1 / 2)"
  using is_double_minus [OF is_double_half] by (simp add: float_sub_def is_double_def)

lemma float_sub_1_1: "float_sub 1 1 = 0"
  by (simp add: float_sub_def round_double_def)

lemma float_sub_absorbed: "float_sub 1 (1 / 2 ^ 60) = 1"
proof -
  define v :: real where "v = 1 - 1 / 2 ^ 60"
  have lo: "1 / 2 \<le> v" and hi: "v < 1" by (simp_all add: v_def)
  have pos: "0 < v" using lo by simp
  have p1: "(2::real) powr of_int (- 1) = 1 / 2"
    using pow2_neg [of 1] by simp
  have p0: "(2::real) powr of_int (- 1 + 1) = 1" by simp
  have e: "\<lfloor>log 2 v\<rfloor> = - 1"
    using floor_log_eq_powr_iff [of v 2 "- 1"] pos lo hi p1 p0 by simp
  have u: "(2::real) powr of_int (- 1 - 52) = 1 / 2 ^ 53"
    using pow2_neg [of 53] by simp
  have q: "v / (1 / 2 ^ 53) = 2 ^ 53 - 1 / 128"
    by (simp add: v_def)
  have fl: "\<lfloor>(2::real) ^ 53 - 1 / 128\<rfloor> = 2 ^ 53 - 1"
    by (simp add: floor_eq_iff)
  have r: "round_half_even (v / (1 / 2 ^ 53)) = 2 ^ 53"
    unfolding q round_half_even_def Let_def fl by simp
  have "round_double v = 1"
    unfolding round_double_pos [OF pos] e u r by simp
  then show ?thesis by (simp add: float_sub_def v_def)
qed

text \<open>Every integer below \<open>2\<^sup>5\<^sup>3\<close> in absolute value, scaled by a power of two, is a
  binary64 number.\<close>

lemma normalize_mantissa:
  fixes m :: int
  shows "0 < m \<Longrightarrow> m < 2 ^ 53 \<Longrightarrow> \<exists>j::nat. 2 ^ 52 \<le> m * 2 ^ j \<and> m * 2 ^ j < 2 ^ 53"
proof (induction "nat (2 ^ 53 - m)" arbitrary: m rule: less_induct)
  case less
  show ?case
  proof (cases "2 ^ 52 \<le> m")
    case True
    then have "2 ^ 52 \<le> m * 2 ^ 0 \<and> m * 2 ^ 0 < 2 ^ 53" using less.prems by simp
    then show ?thesis by blast
  next
    case False
    then have "nat (2 ^ 53 - 2 * m) < nat (2 ^ 53 - m)" "0 < 2 * m" "2 * m < 2 ^ 53"
      using less.prems by simp_all
    from less.hyps [OF this] obtain j :: nat
      where "2 ^ 52 \<le> 2 * m * 2 ^ j \<and> 2 * m * 2 ^ j < 2 ^ 53" by blast
    then have "2 ^ 52 \<le> m * 2 ^ Suc j \<and> m * 2 ^ Suc j < 2 ^ 53" by (simp add: mult.assoc mult.left_commute)
    then show ?thesis by blast
  qed
qed

lemma is_double_scaled_pos:
  assumes "0 < m" "m < 2 ^ 53"
  shows "is_double (of_int m * 2 powr of_int k)"
proof -
  from normalize_mantissa [OF assms] obtain j :: nat
    where j: "2 ^ 52 \<le> m * 2 ^ j" "m * 2 ^ j < 2 ^ 53" by blast
  have "(2::real) powr of_int (k - int j) = 2 powr of_int k / 2 ^ j"
    by (simp add: powr_diff powr_realpow)
  then have e: "of_int (m * 2 ^ j) * 2 powr of_int (k - int j) = (of_int m * 2 powr of_int k :: real)"
    by simp
  show ?thesis
    using round_double_normal [OF j, of "k - int j"] unfolding e is_double_def .
qed

lemma is_double_scaled: "\<bar>m\<bar> < 2 ^ 53 \<Longrightarrow> is_double (of_int m * 2 powr of_int k)"
proof -
  assume b: "\<bar>m\<bar> < 2 ^ 53"
  consider "m = 0" | "0 < m" | "m < 0" by linarith
  then show ?thesis
  proof cases
    case 1
    then show ?thesis by (simp add: is_double_0)
  next
    case 2
    then show ?thesis using b by (intro is_double_scaled_pos) simp_all
  next
    case 3
    then have "is_double (of_int (- m) * 2 powr of_int k)"
      using b by (intro is_double_scaled_pos) simp_all
    from is_double_minus [OF this] show ?thesis by simp
  qed
qed

lemma is_double_of_int: "\<bar>m\<bar> < 2 ^ 53 \<Longrightarrow> is_double (of_int m)"
  using is_double_scaled [of m 0] by simp

lemma is_double_half_int: "\<bar>m\<bar> < 2 ^ 53 \<Longrightarrow> is_double (of_int m / 2)"
  using is_double_scaled [of m "- 1"] by (simp add: powr_minus field_simps)

subsection \<open>Grid and world coordinates\<close>

lemma py_int_half: "0 \<le> c \<Longrightarrow> py_int (1 / 2 + of_int c) = c"
  unfolding py_int_def by (simp add: floor_eq_iff)

lemma py_int_half_neg: "c < 0 \<Longrightarrow> py_int (1 / 2 + of_int c) = c + 1"
  unfolding py_int_def by (auto simp: ceiling_eq_iff floor_eq_iff)

text \<open>Left of (or above) the maze origin the truncation of \<^verbatim>\<open>int()\<close> rounds up: the
  centre of column \<open>c < 0\<close> is mapped back to column \<open>c + 1\<close>.\<close>

lemma world_to_grid_negative_column:
  "c < 0 \<Longrightarrow> fst (world_to_grid (grid_to_world (c, r))) = c + 1"
  by (simp add: world_to_grid_def grid_to_world_def CELL_SIZE_def MAZE_OFFSET_X_def Let_def
      add_divide_distrib py_int_half_neg)

text \<open>The float path of \<open>grid_to_world\<close> and \<open>world_to_grid\<close> on a cell whose index is
  below \<open>2\<^sup>4\<^sup>7\<close> in absolute value: the integer \<^verbatim>\<open>offset + index * 32\<close> converted to a
  float, the sum with \<^verbatim>\<open>16.0\<close>, the difference with the offset and the quotient by 32 are
  binary64 numbers, so none of the four operations rounds.\<close>

lemma center_is_double:assumes "\<bar>c\<bar> < 2 ^ 47" and that: "\<bar>a\<bar> \<le> 120"
  shows "is_double (of_int (a + c * 32))" "is_double (of_int (a + c * 32) + 32 / 2)"
    "is_double (of_int (a + c * 32) + 32 / 2 - of_int a)"
    "is_double ((of_int (a + c * 32) + 32 / 2 - of_int a) / 32)"
proof -
  show "is_double (of_int (a + c * 32))"
    using assms by (intro is_double_of_int) simp
  have "is_double (of_int (a + c * 32 + 16))"
    using assms by (intro is_double_of_int) simp
  then show "is_double (of_int (a + c * 32) + 32 / 2)" by simp
  have "is_double (of_int (c * 32 + 16))"
    using assms by (intro is_double_of_int) simp
  then show "is_double (of_int (a + c * 32) + 32 / 2 - of_int a)" by simp
  have "is_double (of_int (2 * c + 1) / 2)"
    using assms by (intro is_double_half_int) simp
  moreover have "(of_int (a + c * 32) + 32 / 2 - of_int a) / 32 = (of_int (2 * c + 1) / 2 :: real)"
    by simp
  ultimately show "is_double ((of_int (a + c * 32) + 32 / 2 - of_int a) / 32)"
    by (simp only:)
qed

text \<open>
  Claim C3, as amended. For a cell whose column and row are below \<open>2\<^sup>4\<^sup>7\<close> in absolute
  value, \<open>grid_to_world\<close> gives the centre of the square drawn for it, every
  intermediate result of the two conversions is a binary64 number (the float
  computation is the exact one), and \<open>world_to_grid\<close> inverts \<open>grid_to_world\<close> when
  moreover column and row are not negative (all cells of the maze are such cells).
\<close>

theorem grid_to_world_center_and_inverse:
  "\<bar>c\<bar> < 2 ^ 47 \<and> \<bar>r\<bar> < 2 ^ 47 \<longrightarrow>
     (case cell_rect (c, r) of (lf, tp, w, h) \<Rightarrow>
        grid_to_world (c, r) = \<lparr>x = of_int lf + of_int w / 2, y = of_int tp + of_int h / 2\<rparr>)
   \<and> is_double (of_int (MAZE_OFFSET_X + c * CELL_SIZE))
   \<and> is_double (of_int (MAZE_OFFSET_Y + r * CELL_SIZE))
   \<and> is_double (x (grid_to_world (c, r)))
   \<and> is_double (y (grid_to_world (c, r)))
   \<and> is_double (x (grid_to_world (c, r)) - of_int MAZE_OFFSET_X)
   \<and> is_double (y (grid_to_world (c, r)) - of_int MAZE_OFFSET_Y)
   \<and> is_double ((x (grid_to_world (c, r)) - of_int MAZE_OFFSET_X) / of_int CELL_SIZE)
   \<and> is_double ((y (grid_to_world (c, r)) - of_int MAZE_OFFSET_Y) / of_int CELL_SIZE)
   \<and> (0 \<le> c \<and> 0 \<le> r \<longrightarrow> world_to_grid (grid_to_world (c, r)) = (c, r))"
proof (intro impI)
  assume b: "\<bar>c\<bar> < 2 ^ 47 \<and> \<bar>r\<bar> < 2 ^ 47"
  have cx: "\<bar>c\<bar> < 2 ^ 47" and cy: "\<bar>r\<bar> < 2 ^ 47" using b by simp_all
  have 1: "(case cell_rect (c, r) of (lf, tp, w, h) \<Rightarrow>
        grid_to_world (c, r) = \<lparr>x = of_int lf + of_int w / 2, y = of_int tp + of_int h / 2\<rparr>)"
    by (simp add: grid_to_world_def cell_rect_def CELL_SIZE_def MAZE_OFFSET_X_def
      MAZE_OFFSET_Y_def)
  have 2: "0 \<le> c \<and> 0 \<le> r \<longrightarrow> world_to_grid (grid_to_world (c, r)) = (c, r)"
    by (simp add: world_to_grid_def grid_to_world_def CELL_SIZE_def MAZE_OFFSET_X_def
      MAZE_OFFSET_Y_def Let_def add_divide_distrib py_int_half)
  have 3: "is_double (of_int (MAZE_OFFSET_X + c * CELL_SIZE))"
      "is_double (x (grid_to_world (c, r)))"
      "is_double (x (grid_to_world (c, r)) - of_int MAZE_OFFSET_X)"
      "is_double ((x (grid_to_world (c, r)) - of_int MAZE_OFFSET_X) / of_int CELL_SIZE)"
    using center_is_double [OF cx, of 48]
    by (simp_all add: grid_to_world_def CELL_SIZE_def MAZE_OFFSET_X_def)
  have 4: "is_double (of_int (MAZE_OFFSET_Y + r * CELL_SIZE))"
      "is_double (y (grid_to_world (c, r)))"
      "is_double (y (grid_to_world (c, r)) - of_int MAZE_OFFSET_Y)"
      "is_double ((y (grid_to_world (c, r)) - of_int MAZE_OFFSET_Y) / of_int CELL_SIZE)"
    using center_is_double [OF cy, of 120]
    by (simp_all add: grid_to_world_def CELL_SIZE_def MAZE_OFFSET_Y_def)
  show "(case cell_rect (c, r) of (lf, tp, w, h) \<Rightarrow>
        grid_to_world (c, r) = \<lparr>x = of_int lf + of_int w / 2, y = of_int tp + of_int h / 2\<rparr>)
   \<and> is_double (of_int (MAZE_OFFSET_X + c * CELL_SIZE))
   \<and> is_double (of_int (MAZE_OFFSET_Y + r * CELL_SIZE))
   \<and> is_double (x (grid_to_world (c, r)))
   \<and> is_double (y (grid_to_world (c, r)))
   \<and> is_double (x (grid_to_world (c, r)) - of_int MAZE_OFFSET_X)
   \<and> is_double (y (grid_to_world (c, r)) - of_int MAZE_OFFSET_Y)
   \<and> is_double ((x (grid_to_world (c, r)) - of_int MAZE_OFFSET_X) / of_int CELL_SIZE)
   \<and> is_double ((y (grid_to_world (c, r)) - of_int MAZE_OFFSET_Y) / of_int CELL_SIZE)
   \<and> (0 \<le> c \<and> 0 \<le> r \<longrightarrow> world_to_grid (grid_to_world (c, r)) = (c, r))"
    by (intro conjI; (rule 1 2 3 4))
qed

theorem grid_to_world_center_and_inverse_witness:
  "\<bar>10 :: int\<bar> < 2 ^ 47 \<and> \<bar>11 :: int\<bar> < 2 ^ 47 \<and> (0::int) \<le> 10 \<and> (0::int) \<le> 11
   \<and> cell_rect (10, 11) = (368, 472, 32, 32)
   \<and> grid_to_world (10, 11) = \<lparr>x = 384, y = 488\<rparr>
   \<and> is_double (x (grid_to_world (10, 11)))
   \<and> is_double ((x (grid_to_world (10, 11)) - of_int MAZE_OFFSET_X) / of_int CELL_SIZE)
   \<and> world_to_grid (grid_to_world (10, 11)) = (10, 11)"
proof -
  note t = grid_to_world_center_and_inverse [of 10 11]
  have rt: "world_to_grid (grid_to_world (10, 11)) = (10, 11)"
    using t by simp
  have cr: "cell_rect (10, 11) = (368, 472, 32, 32)"
    by (simp add: cell_rect_def CELL_SIZE_def MAZE_OFFSET_X_def MAZE_OFFSET_Y_def)
  have gw: "grid_to_world (10, 11) = \<lparr>x = 384, y = 488\<rparr>"
    using t by (simp add: cr)
  have d1: "is_double (x (grid_to_world (10, 11)))"
    using t by simp
  have d2: "is_double ((x (grid_to_world (10, 11)) - of_int MAZE_OFFSET_X) / of_int CELL_SIZE)"
    using t by simp
  show ?thesis by (intro conjI; (rule rt gw cr d1 d2 | simp))
qed

text \<open>
  Claim C3 as stated (the inverse on every integer cell) fails at the cell \<open>(-1, 0)\<close>:
  its centre is \<open>(32, 136)\<close>, and \<^verbatim>\<open>int((32 - 48) / 32) = int(-0.5) = 0\<close>.
\<close>

theorem world_to_grid_not_inverse_left_of_origin:
  "world_to_grid (grid_to_world (- 1, 0)) = (0, 0)
   \<and> world_to_grid (grid_to_world (- 1, 0)) \<noteq> (- 1, 0)"
  using py_int_half_neg [of "- 1"] py_int_half [of 0]
  by (simp add: world_to_grid_def grid_to_world_def CELL_SIZE_def MAZE_OFFSET_X_def
      MAZE_OFFSET_Y_def Let_def)

subsection \<open>Centering\<close>

lemma py_mod_shift: "b \<noteq> 0 \<Longrightarrow> py_mod (a + of_int k * b) b = py_mod a b"
  by (simp add: py_mod_def add_divide_distrib algebra_simps)

lemma py_mod_small: "0 \<le> a \<Longrightarrow> a < b \<Longrightarrow> py_mod a b = a"
proof -
  assume "0 \<le> a" "a < b"
  then have "\<lfloor>a / b\<rfloor> = 0" by (simp add: floor_eq_iff)
  then show ?thesis by (simp add: py_mod_def)
qed

lemma py_mod_32: "py_mod (of_int c * 32 + a) 32 = py_mod a 32"
  using py_mod_shift [of 32 a c] by (simp add: add.commute)

lemma offset_x_at:
  "py_mod (x (grid_to_world (c, r)) + d - of_int MAZE_OFFSET_X) (of_int CELL_SIZE)
     = py_mod (16 + d) 32"
  using py_mod_32 [of c "16 + d"]
  by (simp add: grid_to_world_def CELL_SIZE_def MAZE_OFFSET_X_def algebra_simps)

lemma offset_y_at:
  "py_mod (y (grid_to_world (c, r)) + d - of_int MAZE_OFFSET_Y) (of_int CELL_SIZE)
     = py_mod (16 + d) 32"
  using py_mod_32 [of r "16 + d"]
  by (simp add: grid_to_world_def CELL_SIZE_def MAZE_OFFSET_Y_def algebra_simps)

text \<open>An offset \<open>d\<close> from a cell centre with \<open>3 \<le> |d| \<le> 29\<close> leaves the tolerance band of
  every cell: four cases, by the cell the shifted point falls in.\<close>

lemma off_center_axis:
  assumes "3 \<le> \<bar>d\<bar>" "\<bar>d\<bar> \<le> 29"
  shows "\<not> \<bar>py_mod (16 + d) 32 - 16\<bar> < 3"
proof -
  consider "- 29 \<le> d \<and> d < - 16" | "- 16 \<le> d \<and> d \<le> - 3"
    | "3 \<le> d \<and> d < 16" | "16 \<le> d \<and> d \<le> 29"
    using assms by linarith
  then show ?thesis
  proof cases
    case 1
    have "py_mod (16 + d) 32 = py_mod (48 + d) 32"
      using py_mod_32 [of "- 1" "48 + d"] by simp
    also have "\<dots> = 48 + d" using 1 by (intro py_mod_small) auto
    finally show ?thesis using 1 by simp
  next
    case 2
    have "py_mod (16 + d) 32 = 16 + d" using 2 by (intro py_mod_small) auto
    then show ?thesis using 2 by simp
  next
    case 3
    have "py_mod (16 + d) 32 = 16 + d" using 3 by (intro py_mod_small) auto
    then show ?thesis using 3 by simp
  next
    case 4
    have "py_mod (16 + d) 32 = py_mod (d - 16) 32"
      using py_mod_32 [of 1 "d - 16"] by simp
    also have "\<dots> = d - 16" using 4 by (intro py_mod_small) auto
    finally show ?thesis using 4 by simp
  qed
qed

lemma is_centered_offset:
  "is_centered (e\<lparr>position := Vector2_add (grid_to_world (c, r)) \<lparr>x = dx, y = dy\<rparr>\<rparr>)
   \<longleftrightarrow> \<bar>py_mod (16 + dx) 32 - 16\<bar> < 3 \<and> \<bar>py_mod (16 + dy) 32 - 16\<bar> < 3"
  using offset_x_at [of c r dx] offset_y_at [of c r dy]
  by (simp add: is_centered_def Vector2_add_def Let_def CELL_SIZE_def)

lemma is_centered_at_center: "is_centered (e\<lparr>position := grid_to_world (c, r)\<rparr>)"
  using offset_x_at [of c r 0] offset_y_at [of c r 0] py_mod_small [of 16 32]
  by (simp add: is_centered_def Let_def CELL_SIZE_def)

lemma offset_at_center:
  "py_mod (x (grid_to_world (c, r)) - of_int MAZE_OFFSET_X) (of_int CELL_SIZE) = of_int CELL_SIZE / 2"
  "py_mod (y (grid_to_world (c, r)) - of_int MAZE_OFFSET_Y) (of_int CELL_SIZE) = of_int CELL_SIZE / 2"
  using offset_x_at [of c r 0] offset_y_at [of c r 0] py_mod_small [of 16 32]
  by (simp_all add: CELL_SIZE_def)

text \<open>
  Claim C6, as amended. Take a cell whose column and row are below \<open>2\<^sup>4\<^sup>7\<close> in absolute
  value, where the float computation of the centre and of the offsets is exact. An
  entity at the centre of the cell is centered: both offsets modulo the cell size are
  half a cell. An entity whose position is off that centre, on either axis, by \<open>d\<close> with
  \<open>3 \<le> |d| \<le> 29\<close> (at least the tolerance, at most the cell size less the tolerance) is
  not, whatever its offset \<open>d'\<close> on the other axis.
\<close>

theorem is_centered_at_center_and_off_center:
  "\<bar>c\<bar> < 2 ^ 47 \<and> \<bar>r\<bar> < 2 ^ 47 \<longrightarrow>
     is_centered (e\<lparr>position := grid_to_world (c, r)\<rparr>)
   \<and> is_double (x (grid_to_world (c, r)) - of_int MAZE_OFFSET_X)
   \<and> is_double (y (grid_to_world (c, r)) - of_int MAZE_OFFSET_Y)
   \<and> py_mod (x (grid_to_world (c, r)) - of_int MAZE_OFFSET_X) (of_int CELL_SIZE)
        = of_int CELL_SIZE / 2
   \<and> py_mod (y (grid_to_world (c, r)) - of_int MAZE_OFFSET_Y) (of_int CELL_SIZE)
        = of_int CELL_SIZE / 2
   \<and> (3 \<le> \<bar>d\<bar> \<and> \<bar>d\<bar> \<le> 29 \<longrightarrow>
        \<not> is_centered (e\<lparr>position := Vector2_add (grid_to_world (c, r)) \<lparr>x = d, y = d'\<rparr>\<rparr>)
      \<and> \<not> is_centered (e\<lparr>position := Vector2_add (grid_to_world (c, r)) \<lparr>x = d', y = d\<rparr>\<rparr>))"
proof (intro impI)
  assume b: "\<bar>c\<bar> < 2 ^ 47 \<and> \<bar>r\<bar> < 2 ^ 47"
  have cx: "\<bar>c\<bar> < 2 ^ 47" and cy: "\<bar>r\<bar> < 2 ^ 47" using b by simp_all
  have dx: "is_double (x (grid_to_world (c, r)) - of_int MAZE_OFFSET_X)"
    using center_is_double(3) [OF cx, of 48]
    by (simp add: grid_to_world_def CELL_SIZE_def MAZE_OFFSET_X_def)
  have dy: "is_double (y (grid_to_world (c, r)) - of_int MAZE_OFFSET_Y)"
    using center_is_double(3) [OF cy, of 120]
    by (simp add: grid_to_world_def CELL_SIZE_def MAZE_OFFSET_Y_def)
  have off: "3 \<le> \<bar>d\<bar> \<and> \<bar>d\<bar> \<le> 29 \<longrightarrow>
        \<not> is_centered (e\<lparr>position := Vector2_add (grid_to_world (c, r)) \<lparr>x = d, y = d'\<rparr>\<rparr>)
      \<and> \<not> is_centered (e\<lparr>position := Vector2_add (grid_to_world (c, r)) \<lparr>x = d', y = d\<rparr>\<rparr>)"
    using off_center_axis [of d] by (simp add: is_centered_offset)
  show "is_centered (e\<lparr>position := grid_to_world (c, r)\<rparr>)
   \<and> is_double (x (grid_to_world (c, r)) - of_int MAZE_OFFSET_X)
   \<and> is_double (y (grid_to_world (c, r)) - of_int MAZE_OFFSET_Y)
   \<and> py_mod (x (grid_to_world (c, r)) - of_int MAZE_OFFSET_X) (of_int CELL_SIZE)
        = of_int CELL_SIZE / 2
   \<and> py_mod (y (grid_to_world (c, r)) - of_int MAZE_OFFSET_Y) (of_int CELL_SIZE)
        = of_int CELL_SIZE / 2
   \<and> (3 \<le> \<bar>d\<bar> \<and> \<bar>d\<bar> \<le> 29 \<longrightarrow>
        \<not> is_centered (e\<lparr>position := Vector2_add (grid_to_world (c, r)) \<lparr>x = d, y = d'\<rparr>\<rparr>)
      \<and> \<not> is_centered (e\<lparr>position := Vector2_add (grid_to_world (c, r)) \<lparr>x = d', y = d\<rparr>\<rparr>))"
    by (intro conjI; (rule is_centered_at_center dx dy offset_at_center off))
qed

theorem is_centered_at_center_and_off_center_witness:
  "\<bar>10 :: int\<bar> < 2 ^ 47 \<and> \<bar>11 :: int\<bar> < 2 ^ 47 \<and> (3::real) \<le> \<bar>5\<bar> \<and> \<bar>5::real\<bar> \<le> 29
   \<and> is_centered ((Player_init \<lparr>x = 0, y = 0\<rparr>)\<lparr>position := grid_to_world (10, 11)\<rparr>)
   \<and> \<not> is_centered ((Player_init \<lparr>x = 0, y = 0\<rparr>)
         \<lparr>position := Vector2_add (grid_to_world (10, 11)) \<lparr>x = 5, y = 0\<rparr>\<rparr>)
   \<and> \<not> is_centered ((Player_init \<lparr>x = 0, y = 0\<rparr>)
         \<lparr>position := Vector2_add (grid_to_world (10, 11)) \<lparr>x = 0, y = 5\<rparr>\<rparr>)"
  using is_centered_at_center_and_off_center
    [where e = "Player_init \<lparr>x = 0, y = 0\<rparr>" and c = 10 and r = 11 and d = 5 and d' = 0]
  by simp

text \<open>
  Claim C6 as stated (any offset beyond the tolerance is not centered) fails one cell
  away: the test is made modulo the cell size, so a player 32 to the right of the centre
  of the cell \<open>(10, 11)\<close>, at the centre of the cell \<open>(11, 11)\<close>, is centered.
\<close>

theorem centered_one_cell_away:
  "(3::real) < 32
   \<and> is_centered ((Player_init \<lparr>x = 0, y = 0\<rparr>)
         \<lparr>position := Vector2_add (grid_to_world (10, 11)) \<lparr>x = 32, y = 0\<rparr>\<rparr>)"
  using py_mod_32 [of 1 16] py_mod_small [of 16 32]
  by (simp add: is_centered_offset)

subsection \<open>Particles\<close>

lemma emit_loop_unit_lifetime:
  "\<exists>qs. fst (emit_loop n pos col sr (1, 1) g ps) = ps @ qs \<and> length qs = n
     \<and> (\<forall>q\<in>set qs. p_pos q = pos \<and> p_lifetime q = 1 \<and> p_max_lifetime q = 1 \<and> p_color q = col)"
proof (induction n arbitrary: g ps)
  case 0
  then show ?case by simp
next
  case (Suc n)
  define q where "q =
    \<lparr>p_pos = pos,
     p_vel = \<lparr>x = cos (fst (random_uniform 0 (2 * pi) g))
                 * fst (random_uniform (fst sr) (snd sr) (snd (random_uniform 0 (2 * pi) g))),
              y = sin (fst (random_uniform 0 (2 * pi) g))
                 * fst (random_uniform (fst sr) (snd sr) (snd (random_uniform 0 (2 * pi) g)))\<rparr>,
     p_lifetime = 1, p_max_lifetime = 1, p_color = col\<rparr>"
  obtain g3 where step:
    "emit_loop (Suc n) pos col sr (1, 1) g ps = emit_loop n pos col sr (1, 1) g3 (ps @ [q])"
    by (simp add: q_def random_uniform_def Let_def)
  from Suc.IH [of g3 "ps @ [q]"] obtain qs where
    "fst (emit_loop n pos col sr (1, 1) g3 (ps @ [q])) = (ps @ [q]) @ qs" "length qs = n"
    "\<forall>q\<in>set qs. p_pos q = pos \<and> p_lifetime q = 1 \<and> p_max_lifetime q = 1 \<and> p_color q = col"
    by blast
  then have "fst (emit_loop (Suc n) pos col sr (1, 1) g ps) = ps @ (q # qs)
      \<and> length (q # qs) = Suc n
      \<and> (\<forall>q\<in>set (q # qs). p_pos q = pos \<and> p_lifetime q = 1 \<and> p_max_lifetime q = 1
            \<and> p_color q = col)"
    using step by (simp add: q_def)
  then show ?case by blast
qed

lemma emit_appends:
  "\<exists>qs. particles (fst (emit pos col n sr (1, 1) g psys)) = particles psys @ qs
     \<and> length qs = nat n
     \<and> (\<forall>q\<in>set qs. p_pos q = pos \<and> p_lifetime q = 1 \<and> p_max_lifetime q = 1 \<and> p_color q = col)"
  using emit_loop_unit_lifetime [of "nat n" pos col sr g "particles psys"]
  by (simp add: emit_def split_def Let_def)

lemma update_drops_unit_lifetimes:
  "\<forall>q\<in>set qs. p_lifetime q = 1 \<Longrightarrow>
   filter (\<lambda>p. p_lifetime p > 0) (map (particle_step 1) (ps @ qs))
     = filter (\<lambda>p. p_lifetime p > 0) (map (particle_step 1) ps)"
  by (induction qs) (auto simp: particle_step_def float_sub_1_1)

lemma emit_then_update:
  "particles (ParticleSystem_update 1 (fst (emit pos col n sr (1, 1) g psys)))
     = particles (ParticleSystem_update 1 psys)"
proof -
  obtain qs where
    "particles (fst (emit pos col n sr (1, 1) g psys)) = particles psys @ qs"
    "\<forall>q\<in>set qs. p_lifetime q = 1"
    using emit_appends [of pos col n sr g psys] by blast
  then show ?thesis
    using update_drops_unit_lifetimes [of qs "particles psys"]
    by (simp add: ParticleSystem_update_def)
qed

lemma update_filter_map:
  "particles (ParticleSystem_update dt psys)
     = map (particle_step dt)
         (filter (\<lambda>p. \<not> float_sub (p_lifetime p) dt \<le> 0) (particles psys))"
  by (simp add: ParticleSystem_update_def filter_map comp_def particle_step_def not_le)




subsection \<open>Pellet collisions\<close>

lemma sqrt_less_iff_sq: "0 < b \<Longrightarrow> sqrt a < b \<longleftrightarrow> a < b\<^sup>2"
  using real_sqrt_less_iff [of a "b\<^sup>2"] by simp

lemma in_range_iff:
  "distance_to a b < of_int CELL_SIZE / 2 \<longleftrightarrow> (x a - x b)\<^sup>2 + (y a - y b)\<^sup>2 < 256"
  by (simp add: distance_to_def Vector2_length_def Vector2_sub_def CELL_SIZE_def sqrt_less_iff_sq)

lemma collide_loop_result:
  "collide_loop pl qs sc pw psys g = (qs', sc', pw', psys', g') \<Longrightarrow>
     qs' = map (\<lambda>q. if \<not> eaten q \<and> distance_to (Entity.position pl) (Pellet.position q) < of_int CELL_SIZE / 2
                     then q\<lparr>eaten := True\<rparr> else q) qs
   \<and> sc' = sc + sum_list (map points (filter (\<lambda>q. \<not> eaten q \<and> distance_to (Entity.position pl) (Pellet.position q) < of_int CELL_SIZE / 2) qs))
   \<and> pw' = (pw \<or> (\<exists>q\<in>set qs. \<not> eaten q \<and> distance_to (Entity.position pl) (Pellet.position q) < of_int CELL_SIZE / 2 \<and> is_power q))"
proof (induction qs arbitrary: sc pw psys g qs' sc' pw' psys' g')
  case Nil
  then show ?case by simp
next
  case (Cons q qs)
  show ?case
  proof (cases "\<not> eaten q \<and> distance_to (Entity.position pl) (Pellet.position q) < of_int CELL_SIZE / 2")
    case True
    obtain ps1 g1 where e: "emit (Pellet.position q) COLOR_YELLOW 5 (20, 80) (0.2, 0.5) g psys = (ps1, g1)"
      by (cases "emit (Pellet.position q) COLOR_YELLOW 5 (20, 80) (0.2, 0.5) g psys")
    obtain rq rs rp rps rg where r: "collide_loop pl qs (sc + points q) (if is_power q then True else pw) ps1 g1 = (rq, rs, rp, rps, rg)"
      by (metis prod_cases5)
    from Cons.prems True e r have eqs: "qs' = q\<lparr>eaten := True\<rparr> # rq" "sc' = rs" "pw' = rp"
      by auto
    from Cons.IH [OF r] True eqs show ?thesis by auto
  next
    case False
    obtain rq rs rp rps rg where r: "collide_loop pl qs sc pw psys g = (rq, rs, rp, rps, rg)"
      by (metis prod_cases5)
    from Cons.prems False r have eqs: "qs' = q # rq" "sc' = rs" "pw' = rp"
      by auto
    from Cons.IH [OF r] False eqs show ?thesis by auto
  qed
qed

lemma collide_loop_no_hit:
  "\<forall>q\<in>set qs. eaten q \<or> \<not> distance_to (Entity.position pl) (Pellet.position q) < of_int CELL_SIZE / 2 \<Longrightarrow>
   collide_loop pl qs sc pw psys g = (qs, sc, pw, psys, g)"
  by (induction qs arbitrary: sc pw psys g) auto

text \<open>
  Claim C4. A call of \<open>check_pellet_collision\<close> marks exactly the pellets that are not
  yet eaten and lie within half a cell of the player; an eaten pellet is left as it is,
  adds nothing to the score and does not set the flag (the score and the flag range
  over the uneaten pellets in reach only). A second call with a player at the same
  position returns score 0 and flag false, and changes neither the maze, nor the particle
  system, nor the random generator.
\<close>

theorem check_pellet_collision_idempotent:
  assumes first: "check_pellet_collision pl g psys mz = ((sc, pw), mz', psys', g')"
    and same: "Entity.position pl2 = Entity.position pl"
  shows "pellets mz' =
           map (\<lambda>q. if \<not> eaten q
                        \<and> distance_to (Entity.position pl) (Pellet.position q) < of_int CELL_SIZE / 2
                     then q\<lparr>eaten := True\<rparr> else q) (pellets mz)
       \<and> sc = sum_list (map points (filter (\<lambda>q. \<not> eaten q
                \<and> distance_to (Entity.position pl) (Pellet.position q) < of_int CELL_SIZE / 2)
              (pellets mz)))
       \<and> pw = (\<exists>q\<in>set (pellets mz). \<not> eaten q
                \<and> distance_to (Entity.position pl) (Pellet.position q) < of_int CELL_SIZE / 2
                \<and> is_power q)
       \<and> check_pellet_collision pl2 g' psys' mz' = ((0, False), mz', psys', g')"
proof -
  obtain qs' where loop: "collide_loop pl (pellets mz) 0 False psys g = (qs', sc, pw, psys', g')"
    and mz': "mz' = mz\<lparr>pellets := qs'\<rparr>"
    using first by (auto simp: check_pellet_collision_def split: prod.splits)
  note res = collide_loop_result [OF loop]
  have "\<forall>q\<in>set qs'. eaten q
          \<or> \<not> distance_to (Entity.position pl2) (Pellet.position q) < of_int CELL_SIZE / 2"
    using res same by auto
  then have "collide_loop pl2 qs' 0 False psys' g' = (qs', 0, False, psys', g')"
    by (rule collide_loop_no_hit)
  then have "check_pellet_collision pl2 g' psys' mz' = ((0, False), mz', psys', g')"
    by (simp add: check_pellet_collision_def mz')
  then show ?thesis using res by (simp add: mz')
qed

theorem check_pellet_collision_idempotent_witness:
  "(let pl = Player_init \<lparr>x = 100, y = 100\<rparr>;
        mz = \<lparr>pellets =
       [\<lparr>Pellet.position = \<lparr>x = 100, y = 100\<rparr>, is_power = False, points = 10,
          eaten = True, animation_timer = 0\<rparr>,
        \<lparr>Pellet.position = \<lparr>x = 100, y = 110\<rparr>, is_power = True, points = 50,
          eaten = False, animation_timer = 0\<rparr>,
        \<lparr>Pellet.position = \<lparr>x = 300, y = 100\<rparr>, is_power = False, points = 10,
          eaten = False, animation_timer = 0\<rparr>],
      player_start_pos = \<lparr>x = 100, y = 100\<rparr>, ghost_start_positions = [],
      ghost_house_exit = \<lparr>x = 0, y = 0\<rparr>, layout_str = []\<rparr>;
        first = check_pellet_collision pl (\<lambda>n. 0) ParticleSystem_init mz
    in fst first = (50, True)
     \<and> map eaten (pellets (fst (snd first))) = [True, True, False]
     \<and> (case snd first of
          (mz', psys', g') \<Rightarrow>
            check_pellet_collision pl g' psys' mz' = ((0, False), mz', psys', g')))"
proof -
  define pl where "pl = Player_init \<lparr>x = 100, y = 100\<rparr>"
  define mz where "mz = \<lparr>pellets =
       [\<lparr>Pellet.position = \<lparr>x = 100, y = 100\<rparr>, is_power = False, points = 10,
          eaten = True, animation_timer = 0\<rparr>,
        \<lparr>Pellet.position = \<lparr>x = 100, y = 110\<rparr>, is_power = True, points = 50,
          eaten = False, animation_timer = 0\<rparr>,
        \<lparr>Pellet.position = \<lparr>x = 300, y = 100\<rparr>, is_power = False, points = 10,
          eaten = False, animation_timer = 0\<rparr>],
      player_start_pos = \<lparr>x = 100, y = 100\<rparr>, ghost_start_positions = [],
      ghost_house_exit = \<lparr>x = 0, y = 0\<rparr>, layout_str = []\<rparr>"
  define R where "R = check_pellet_collision pl (\<lambda>n. 0) ParticleSystem_init mz"
  have R: "R = ((fst (fst R), snd (fst R)), fst (snd R), fst (snd (snd R)), snd (snd (snd R)))"
    by simp
  note t = check_pellet_collision_idempotent [OF R [unfolded R_def] refl, folded R_def]
  have near: "distance_to (Entity.position pl) \<lparr>x = 100, y = 110\<rparr> < of_int CELL_SIZE / 2"
    using in_range_iff [of "\<lparr>x = 100, y = 100\<rparr>" "\<lparr>x = 100, y = 110\<rparr>"]
    by (simp add: pl_def Player_init_def)
  have far: "\<not> distance_to (Entity.position pl) \<lparr>x = 300, y = 100\<rparr> < of_int CELL_SIZE / 2"
    using in_range_iff [of "\<lparr>x = 100, y = 100\<rparr>" "\<lparr>x = 300, y = 100\<rparr>"]
    by (simp add: pl_def Player_init_def)
  from t near far have
    "fst R = (50, True)
     \<and> map eaten (pellets (fst (snd R))) = [True, True, False]
     \<and> (case snd R of
          (mz', psys', g') \<Rightarrow>
            check_pellet_collision pl g' psys' mz' = ((0, False), mz', psys', g'))"
    by (simp add: mz_def split_def prod_eq_iff)
  then show ?thesis
    unfolding R_def pl_def mz_def Let_def .
qed

subsection \<open>The sound manager\<close>

text \<open>
  Claim C9. When audio is disabled or the name is not a known effect, \<open>play\<close> returns
  normally (it does not raise, whatever the audio device would do), hands nothing to the
  device and leaves the manager as it is.
\<close>

theorem play_is_noop_when_disabled_or_unknown:
  "\<not> enabled sm \<or> sound_name \<notin> dom (sounds sm) \<Longrightarrow>
   play device_play sound_name loops sm mx = Inr (sm, mx)"
  by (auto simp: play_def)

theorem play_is_noop_when_disabled_or_unknown_witness:
  "''laser'' \<notin> dom (sounds \<lparr>sounds = [''intro'' \<mapsto> [0, 1]], enabled = True\<rparr>)
   \<and> play (\<lambda>s l m. Inl ValueError) ''laser'' 0
         \<lparr>sounds = [''intro'' \<mapsto> [0, 1]], enabled = True\<rparr> []
       = Inr (\<lparr>sounds = [''intro'' \<mapsto> [0, 1]], enabled = True\<rparr>, [])
   \<and> \<not> enabled \<lparr>sounds = [''intro'' \<mapsto> [0, 1]], enabled = False\<rparr>
   \<and> play (\<lambda>s l m. Inl ValueError) ''intro'' 3
         \<lparr>sounds = [''intro'' \<mapsto> [0, 1]], enabled = False\<rparr> []
       = Inr (\<lparr>sounds = [''intro'' \<mapsto> [0, 1]], enabled = False\<rparr>, [])"
  using play_is_noop_when_disabled_or_unknown
      [where sm = "\<lparr>sounds = [''intro'' \<mapsto> [0, 1]], enabled = True\<rparr>"
         and sound_name = "''laser''" and device_play = "\<lambda>s l m. Inl ValueError"
         and loops = 0 and mx = "[]"]
    play_is_noop_when_disabled_or_unknown
      [where sm = "\<lparr>sounds = [''intro'' \<mapsto> [0, 1]], enabled = False\<rparr>"
         and sound_name = "''intro''" and device_play = "\<lambda>s l m. Inl ValueError"
         and loops = 3 and mx = "[]"]
  by simp

text \<open>An enabled manager does play a sound it knows: the device receives the request.\<close>

lemma play_known_sound:
  "play (\<lambda>s l m. Inr (m @ [(s, l)])) ''intro'' 3
     \<lparr>sounds = [''intro'' \<mapsto> [0, 1]], enabled = True\<rparr> []
   = Inr (\<lparr>sounds = [''intro'' \<mapsto> [0, 1]], enabled = True\<rparr>, [([0, 1], 3)])"
  by (simp add: play_def bind_err_def)

subsection \<open>Evaluating the maze of the program\<close>

lemmas maze_eval =
  is_wall_def layout_str_Maze_init getitem_def bind_err_def LAYOUT_def
  get_grid_pos_def grid_to_world_def py_int_def CELL_SIZE_def MAZE_OFFSET_X_def MAZE_OFFSET_Y_def

lemmas entity_eval =
  Ghost_init_def Player_init_def COLOR_RED_def GHOST_SPEED_def PLAYER_SPEED_def
  grid_to_world_def CELL_SIZE_def MAZE_OFFSET_X_def MAZE_OFFSET_Y_def

lemmas vector_eval = Vector2_add_def Vector2_mul_def

lemma is_centered_if_at_center: "Entity.position e = grid_to_world (c, r) \<Longrightarrow> is_centered e"
  using offset_x_at [of c r 0] offset_y_at [of c r 0] py_mod_small [of 16 32]
  by (simp add: is_centered_def Let_def CELL_SIZE_def)

subsection \<open>The ghost\<close>

lemma open_directions_sublist:
  "open_directions mz cr l = Inr ds \<Longrightarrow> distinct l \<Longrightarrow> distinct ds \<and> set ds \<subseteq> set l"
proof (induction l arbitrary: ds)
  case Nil
  then show ?case by simp
next
  case (Cons d l)
  then show ?case
    by (auto simp: bind_err_def split_def Let_def split: sum.splits if_splits)
qed

lemma possible_directions_distinct:
  "possible_directions mz e = Inr ds \<Longrightarrow> distinct ds \<and> set ds \<subseteq> {UP, DOWN, LEFT, RIGHT}"
  using open_directions_sublist [of mz "get_grid_pos e" "[UP, DOWN, LEFT, RIGHT]" ds]
  by (auto simp: possible_directions_def)

lemma reverse_differs:
  "d \<noteq> NONE \<Longrightarrow> Direction_of (- fst (dir_value d), - snd (dir_value d)) = Inr rev_dir
   \<Longrightarrow> rev_dir \<noteq> d"
  by (cases d) (auto simp: Direction_of_def)

lemma Ghost_update_Inr:
  "Ghost_update dt mz i gh = Inr g' \<Longrightarrow>
     velocity g' = \<lparr>x = of_int (fst (dir_value (direction g'))) * speed g',
                    y = of_int (snd (dir_value (direction g'))) * speed g'\<rparr>
   \<and> Entity.position g' = Vector2_add (Entity.position gh) (Vector2_mul (velocity g') dt)
   \<and> speed g' = speed gh"
  by (auto simp: Ghost_update_def choose_direction_def bind_err_def Let_def split_def
      split: sum.splits if_splits)

lemma choose_direction_keeps:
  "\<not> is_centered gh \<or> possible_directions mz gh = Inr [] \<Longrightarrow> choose_direction mz i gh = Inr gh"
  by (auto simp: choose_direction_def ghost_candidates_def prevent_going_back_def bind_err_def)

text \<open>
  Claim C2, as amended. When a centered ghost chooses a direction, and both its current
  heading and the reverse of that heading are among the non-wall neighbour directions
  (so there are at least two), the reverse is removed from the candidates; the heading
  stays a candidate, the candidates are pairwise different, and the new direction is
  the candidate at the index the generator draws: each candidate is chosen for exactly
  one of the equally likely indices.
\<close>

theorem ghost_excludes_reverse:
  assumes centered: "is_centered gh"
    and neighbours: "possible_directions mz gh = Inr ds"
    and heading: "direction gh \<in> set ds"
    and reverse:
      "Direction_of (- fst (dir_value (direction gh)), - snd (dir_value (direction gh)))
         = Inr rev_dir"
    and open_rev: "rev_dir \<in> set ds"
  shows "2 \<le> length ds
       \<and> ghost_candidates mz gh = Inr (remove1 rev_dir ds)
       \<and> rev_dir \<notin> set (remove1 rev_dir ds)
       \<and> direction gh \<in> set (remove1 rev_dir ds)
       \<and> distinct (remove1 rev_dir ds)
       \<and> (\<forall>i < length (remove1 rev_dir ds).
            \<exists>g1. Ghost_update dt mz i gh = Inr g1 \<and> direction g1 = remove1 rev_dir ds ! i)"
proof -
  from possible_directions_distinct [OF neighbours]
  have dist: "distinct ds" and sub: "set ds \<subseteq> {UP, DOWN, LEFT, RIGHT}" by auto
  from heading sub have "direction gh \<noteq> NONE" by auto
  from reverse_differs [OF this reverse] have ne: "rev_dir \<noteq> direction gh" .
  have len: "2 \<le> length ds"
  proof -
    have "card {direction gh, rev_dir} \<le> card (set ds)"
      using heading open_rev by (intro card_mono) auto
    then show ?thesis using ne dist by (simp add: distinct_card)
  qed
  have cands: "ghost_candidates mz gh = Inr (remove1 rev_dir ds)"
    using neighbours heading reverse open_rev len
    by (simp add: ghost_candidates_def prevent_going_back_def bind_err_def)
  have notin: "rev_dir \<notin> set (remove1 rev_dir ds)" using dist by simp
  have stays: "direction gh \<in> set (remove1 rev_dir ds)" using heading ne by simp
  have d2: "distinct (remove1 rev_dir ds)" using dist by simp
  have choice: "\<exists>g1. Ghost_update dt mz i gh = Inr g1 \<and> direction g1 = remove1 rev_dir ds ! i"
    if "i < length (remove1 rev_dir ds)" for i
    using that centered cands
    by (auto simp: Ghost_update_def choose_direction_def random_choice_def getitem_def
        bind_err_def Let_def split_def)
  show ?thesis using len cands notin stays d2 choice by blast
qed

theorem ghost_excludes_reverse_witness:
  "(let mz = fst (Maze_init (\<lambda>n. 0));
        gh = (Ghost_init (grid_to_world (5, 4)) COLOR_RED ''blinky'')\<lparr>direction := LEFT\<rparr>
    in is_centered gh
     \<and> possible_directions mz gh = Inr [UP, DOWN, LEFT, RIGHT]
     \<and> Direction_of (- fst (dir_value (direction gh)), - snd (dir_value (direction gh)))
         = Inr RIGHT
     \<and> ghost_candidates mz gh = Inr [UP, DOWN, LEFT]
     \<and> (\<exists>g1. Ghost_update (1 / 60) mz 1 gh = Inr g1 \<and> direction g1 = DOWN))"
proof -
  define mz where "mz = fst (Maze_init (\<lambda>n. 0))"
  define gh where
    "gh = (Ghost_init (grid_to_world (5, 4)) COLOR_RED ''blinky'')\<lparr>direction := LEFT\<rparr>"
  have c: "is_centered gh"
    by (rule is_centered_if_at_center [of _ 5 4]) (simp add: gh_def Ghost_init_def)
  have p: "possible_directions mz gh = Inr [UP, DOWN, LEFT, RIGHT]"
    by (simp add: mz_def gh_def possible_directions_def Ghost_init_def maze_eval)
  have d: "direction gh = LEFT" by (simp add: gh_def)
  have r: "Direction_of (- fst (dir_value (direction gh)), - snd (dir_value (direction gh)))
      = Inr RIGHT"
    by (simp add: d Direction_of_def)
  note t = ghost_excludes_reverse [OF c p _ r, where dt = "1 / 60"]
  from t d have cands: "ghost_candidates mz gh = Inr [UP, DOWN, LEFT]"
    and every: "\<forall>i<3. \<exists>g1. Ghost_update (1 / 60) mz i gh = Inr g1
                  \<and> direction g1 = [UP, DOWN, LEFT] ! i"
    by simp_all
  from every [rule_format, of 1]
  have "\<exists>g1. Ghost_update (1 / 60) mz 1 gh = Inr g1 \<and> direction g1 = DOWN"
    by simp
  with c p r cands show ?thesis
    unfolding mz_def gh_def Let_def by simp
qed

text \<open>
  Claim C2 as stated (the reverse is excluded whenever at least two non-wall neighbour
  directions exist, the reverse among them) fails when the current heading itself is
  blocked. A ghost heading left at the centre of the cell \<open>(1, 4)\<close> has the wall of the
  border to its left and open cells above, below and to the right: the heading is not a
  candidate, so the filter does not run, the reverse (right) stays a candidate, and with
  the draw 2 the ghost turns back.
\<close>

theorem ghost_reverse_kept_at_wall:
  "is_centered ((Ghost_init (grid_to_world (1, 4)) COLOR_RED ''blinky'')\<lparr>direction := LEFT\<rparr>)
   \<and> possible_directions (fst (Maze_init (\<lambda>n. 0))) ((Ghost_init (grid_to_world (1, 4)) COLOR_RED ''blinky'')\<lparr>direction := LEFT\<rparr>) = Inr [UP, DOWN, RIGHT]
   \<and> Direction_of (- fst (dir_value (direction ((Ghost_init (grid_to_world (1, 4)) COLOR_RED ''blinky'')\<lparr>direction := LEFT\<rparr>))), - snd (dir_value (direction ((Ghost_init (grid_to_world (1, 4)) COLOR_RED ''blinky'')\<lparr>direction := LEFT\<rparr>))))
       = Inr RIGHT
   \<and> ghost_candidates (fst (Maze_init (\<lambda>n. 0))) ((Ghost_init (grid_to_world (1, 4)) COLOR_RED ''blinky'')\<lparr>direction := LEFT\<rparr>) = Inr [UP, DOWN, RIGHT]
   \<and> Ghost_update (1 / 10) (fst (Maze_init (\<lambda>n. 0))) 2 ((Ghost_init (grid_to_world (1, 4)) COLOR_RED ''blinky'')\<lparr>direction := LEFT\<rparr>)
       = Inr \<lparr>position = \<lparr>x = 110, y = 264\<rparr>, start_pos = \<lparr>x = 96, y = 264\<rparr>,
               velocity = \<lparr>x = 140, y = 0\<rparr>, direction = RIGHT, speed = 140,
               color = (255, 0, 0), name = ''blinky''\<rparr>"
proof -
  let ?g = "\<lparr>position = \<lparr>x = 96, y = 264\<rparr>, start_pos = \<lparr>x = 96, y = 264\<rparr>,
             velocity = \<lparr>x = 0, y = 0\<rparr>, direction = LEFT, speed = 140,
             color = (255, 0, 0), name = ''blinky''\<rparr>"
  have e: "((Ghost_init (grid_to_world (1, 4)) COLOR_RED ''blinky'')\<lparr>direction := LEFT\<rparr>) = ?g"
    by (simp add: entity_eval)
  have c: "is_centered ?g"
    by (rule is_centered_if_at_center [of _ 1 4]) (simp add: entity_eval)
  have p: "possible_directions (fst (Maze_init (\<lambda>n. 0))) ?g = Inr [UP, DOWN, RIGHT]"
    by (simp add: possible_directions_def maze_eval)
  have r: "Direction_of (- fst (dir_value (direction ?g)), - snd (dir_value (direction ?g)))
       = Inr RIGHT"
    by (simp add: Direction_of_def)
  have k: "ghost_candidates (fst (Maze_init (\<lambda>n. 0))) ?g = Inr [UP, DOWN, RIGHT]"
    by (simp add: ghost_candidates_def p prevent_going_back_def bind_err_def)
  have ch: "choose_direction (fst (Maze_init (\<lambda>n. 0))) 2 ?g = Inr (?g\<lparr>direction := RIGHT\<rparr>)"
    by (simp add: choose_direction_def c k random_choice_def getitem_def bind_err_def)
  have u: "Ghost_update (1 / 10) (fst (Maze_init (\<lambda>n. 0))) 2 ?g
       = Inr \<lparr>position = \<lparr>x = 110, y = 264\<rparr>, start_pos = \<lparr>x = 96, y = 264\<rparr>,
               velocity = \<lparr>x = 140, y = 0\<rparr>, direction = RIGHT, speed = 140,
               color = (255, 0, 0), name = ''blinky''\<rparr>"
    by (simp add: Ghost_update_def ch bind_err_def vector_eval)
  show ?thesis unfolding e by (intro conjI; (rule c p r k u))
qed

lemma open_directions_open:
  "open_directions mz cr l = Inr ds \<Longrightarrow> d \<in> set ds \<Longrightarrow>
     d \<in> set l
   \<and> is_wall mz (fst cr + fst (dir_value d), snd cr + snd (dir_value d)) = Inr False"
proof (induction l arbitrary: ds)
  case Nil
  then show ?case by simp
next
  case (Cons a l)
  then show ?case
    by (auto simp: bind_err_def split_def Let_def split: sum.splits if_splits)
qed

lemma prevent_going_back_subset:
  "prevent_going_back dir ds = Inr ds' \<Longrightarrow> set ds' \<subseteq> set ds"
  by (auto simp: prevent_going_back_def bind_err_def split: if_splits sum.splits
      dest: set_remove1_subset [THEN subsetD])

lemma ghost_candidates_open:
  assumes "ghost_candidates mz gh = Inr ds" "d \<in> set ds"
  shows "d \<noteq> NONE
       \<and> is_wall mz (fst (get_grid_pos gh) + fst (dir_value d),
                     snd (get_grid_pos gh) + snd (dir_value d)) = Inr False"
proof -
  from assms(1) obtain ps where ps: "possible_directions mz gh = Inr ps"
    and pg: "prevent_going_back (direction gh) ps = Inr ds"
    by (auto simp: ghost_candidates_def bind_err_def split: sum.splits)
  from prevent_going_back_subset [OF pg] assms(2) have "d \<in> set ps" by auto
  from open_directions_open [OF ps [unfolded possible_directions_def] this]
  show ?thesis by auto
qed

lemma choose_direction_Inr:
  assumes "choose_direction mz i gh = Inr g1"
  shows "(is_centered gh \<and> ghost_candidates mz gh = Inr ds \<and> ds \<noteq> [] \<longrightarrow>
            i < length ds \<and> g1 = gh\<lparr>direction := ds ! i\<rparr>)
       \<and> (\<not> is_centered gh \<or> ghost_candidates mz gh = Inr [] \<longrightarrow> g1 = gh)"
  using assms
  by (auto simp: choose_direction_def random_choice_def getitem_def bind_err_def
      split: if_splits sum.splits)

lemma dir_value_nonzero:
  "d \<noteq> NONE \<Longrightarrow> s \<noteq> 0 \<Longrightarrow>
   \<lparr>x = of_int (fst (dir_value d)) * s, y = of_int (snd (dir_value d)) * s\<rparr> \<noteq> \<lparr>x = 0, y = (0::real)\<rparr>"
  by (cases d) simp_all

lemma choose_direction_shape:
  "choose_direction mz i gh = Inr g1 \<Longrightarrow> g1 = gh\<lparr>direction := direction g1\<rparr>"
  by (auto simp: choose_direction_def bind_err_def split: if_splits sum.splits)

lemma Ghost_update_direction:
  assumes "Ghost_update dt mz i gh = Inr g'"
  shows "choose_direction mz i gh = Inr (gh\<lparr>direction := direction g'\<rparr>)"
proof -
  from assms obtain g1 where c: "choose_direction mz i gh = Inr g1"
    and d: "direction g' = direction g1"
    by (auto simp: Ghost_update_def bind_err_def Let_def split_def split: sum.splits)
  from choose_direction_shape [OF c] have "g1 = gh\<lparr>direction := direction g'\<rparr>"
    by (simp add: d)
  with c show ?thesis by simp
qed



subsection \<open>The player\<close>

lemma handle_input_fields [simp]:
  "Entity.position (handle_input im p) = Entity.position p"
  "direction (handle_input im p) = direction p"
  "speed (handle_input im p) = speed p"
  "velocity (handle_input im p) = velocity p"
  by (simp_all add: handle_input_def)

lemma handle_input_geometry [simp]:
  "is_centered (handle_input im p) = is_centered p"
  "get_grid_pos (handle_input im p) = get_grid_pos p"
  by (simp_all add: is_centered_def get_grid_pos_def)

lemma commit_next_direction_position:
  "commit_next_direction mz p = Inr p1 \<Longrightarrow>
     Entity.position p1 = Entity.position p \<and> speed p1 = speed p"
  by (auto simp: commit_next_direction_def bind_err_def split_def Let_def
      split: if_splits sum.splits)

lemma commit_next_direction_fields:
  "commit_next_direction mz p = Inr p1 \<Longrightarrow>
     Entity.position p1 = Entity.position p \<and> speed p1 = speed p
     \<and> is_centered p1 = is_centered p \<and> get_grid_pos p1 = get_grid_pos p"
  using commit_next_direction_position [of mz p p1]
  by (simp add: is_centered_def get_grid_pos_def)

lemma Player_update_after_move:
  "Player_move dt mz (handle_input im p) = Inr p1 \<Longrightarrow>
   \<exists>p'. Player_update dt im mz p = Inr p' \<and> velocity p' = velocity p1 \<and> direction p' = direction p1
        \<and> Entity.position p' = Entity.position p1 \<and> speed p' = speed p1"
  by (simp add: Player_update_def bind_err_def animate_mouth_def Let_def)

lemma Player_update_Inr:
  "Player_update dt im mz p = Inr p' \<Longrightarrow>
   \<exists>p1. Player_move dt mz (handle_input im p) = Inr p1 \<and> velocity p' = velocity p1 \<and> direction p' = direction p1
        \<and> Entity.position p' = Entity.position p1 \<and> speed p' = speed p1"
  by (auto simp: Player_update_def bind_err_def animate_mouth_def Let_def split: sum.splits if_splits)

lemma Player_move_velocity:
  "Player_move dt mz p = Inr p1 \<Longrightarrow>
     velocity p1 =
       (if is_centered p
           \<and> is_wall mz (fst (get_grid_pos p) + fst (dir_value (direction p1)),
                         snd (get_grid_pos p) + snd (dir_value (direction p1))) = Inr True
        then \<lparr>x = 0, y = 0\<rparr>
        else \<lparr>x = of_int (fst (dir_value (direction p1))) * speed p,
              y = of_int (snd (dir_value (direction p1))) * speed p\<rparr>)
     \<and> speed p1 = speed p
     \<and> Entity.position p1 = Vector2_add (Entity.position p) (Vector2_mul (velocity p1) dt)"
proof -
  assume m: "Player_move dt mz p = Inr p1"
  then obtain q where q: "commit_next_direction mz p = Inr q"
    by (auto simp: Player_move_def bind_err_def split: sum.splits)
  note f = commit_next_direction_fields [OF q]
  from m q f show ?thesis
    by (auto simp: Player_move_def bind_err_def split_def Let_def split: sum.splits if_splits)
qed

lemma Vector2_add_zero: "Vector2_add v (Vector2_mul \<lparr>x = 0, y = 0\<rparr> dt) = v"
  by (simp add: Vector2_add_def Vector2_mul_def)

lemma Player_move_stops:
  assumes "is_centered p" "direction p = RIGHT"
    and "is_wall mz (fst (get_grid_pos p) + 1, snd (get_grid_pos p)) = Inr True"
    and "is_wall mz (fst (get_grid_pos p) + fst (dir_value (next_direction p)),
                     snd (get_grid_pos p) + snd (dir_value (next_direction p))) = Inr True"
  shows "\<exists>p1. Player_move dt mz p = Inr p1 \<and> velocity p1 = \<lparr>x = 0, y = 0\<rparr> \<and> direction p1 = RIGHT
           \<and> Entity.position p1 = Entity.position p"
  using assms
  by (simp add: Player_move_def commit_next_direction_def bind_err_def split_def Let_def Vector2_add_zero)

lemma commit_next_direction_rule:
  "commit_next_direction mz p = Inr p1 \<Longrightarrow>
     direction p1 =
       (if is_centered p
           \<and> is_wall mz (fst (get_grid_pos p) + fst (dir_value (next_direction p)),
                         snd (get_grid_pos p) + snd (dir_value (next_direction p))) = Inr False
        then next_direction p else direction p)
     \<and> next_direction p1 = next_direction p"
  by (auto simp: commit_next_direction_def bind_err_def split_def Let_def
      split: if_splits sum.splits)

lemma Player_move_direction:
  "Player_move dt mz p = Inr p1 \<Longrightarrow>
     direction p1 =
       (if is_centered p
           \<and> is_wall mz (fst (get_grid_pos p) + fst (dir_value (next_direction p)),
                         snd (get_grid_pos p) + snd (dir_value (next_direction p))) = Inr False
        then next_direction p else direction p)
     \<and> next_direction p1 = next_direction p"
proof -
  assume m: "Player_move dt mz p = Inr p1"
  then obtain q where q: "commit_next_direction mz p = Inr q"
    and d: "direction p1 = direction q" "next_direction p1 = next_direction q"
    by (auto simp: Player_move_def bind_err_def split_def Let_def split: sum.splits if_splits)
  from commit_next_direction_rule [OF q] d show ?thesis by simp
qed

lemma Player_update_next_direction:
  "Player_update dt im mz p = Inr p' \<Longrightarrow> Player_move dt mz (handle_input im p) = Inr p1
   \<Longrightarrow> next_direction p' = next_direction p1"
  by (auto simp: Player_update_def bind_err_def animate_mouth_def Let_def split: sum.splits if_splits)

lemma handle_input_next_direction:
  "next_direction (handle_input im p) =
     (if is_key_down im K_LEFT \<or> is_key_down im K_a then LEFT
      else if is_key_down im K_RIGHT \<or> is_key_down im K_d then RIGHT
      else if is_key_down im K_UP \<or> is_key_down im K_w then UP
      else if is_key_down im K_DOWN \<or> is_key_down im K_s then DOWN
      else next_direction p)"
  by (simp add: handle_input_def)

text \<open>
  Claim C7, as amended. \<open>update\<close> first sets the desired next direction from the keys
  held, then commits it as the direction when the player is centered and the neighbour
  cell in that direction is not a wall; otherwise the direction stays. If the player is
  centered and the cell ahead in the resulting direction is a wall, the velocity is zero;
  otherwise it is the unit vector of that direction times the speed; the position
  advances by the velocity times \<open>dt\<close>. So a centered player heading right with a wall to
  its right stops, keeping its direction and position, when the cell in its desired next
  direction is a wall as well (as it is when the desired direction is right).
\<close>

theorem player_velocity_after_update:
  "(Player_update dt im mz p = Inr p' \<longrightarrow>
      velocity p' =
        (if is_centered p
            \<and> is_wall mz (fst (get_grid_pos p) + fst (dir_value (direction p')),
                          snd (get_grid_pos p) + snd (dir_value (direction p'))) = Inr True
         then \<lparr>x = 0, y = 0\<rparr>
         else \<lparr>x = of_int (fst (dir_value (direction p'))) * speed p',
               y = of_int (snd (dir_value (direction p'))) * speed p'\<rparr>)
    \<and> direction p' =
        (if is_centered p
            \<and> is_wall mz (fst (get_grid_pos p) + fst (dir_value (next_direction p')),
                          snd (get_grid_pos p) + snd (dir_value (next_direction p'))) = Inr False
         then next_direction p' else direction p)
    \<and> next_direction p' =
        (if is_key_down im K_LEFT \<or> is_key_down im K_a then LEFT
         else if is_key_down im K_RIGHT \<or> is_key_down im K_d then RIGHT
         else if is_key_down im K_UP \<or> is_key_down im K_w then UP
         else if is_key_down im K_DOWN \<or> is_key_down im K_s then DOWN
         else next_direction p)
    \<and> speed p' = speed p
    \<and> Entity.position p' = Vector2_add (Entity.position p) (Vector2_mul (velocity p') dt))
   \<and> (is_centered p \<and> direction p = RIGHT
        \<and> is_wall mz (fst (get_grid_pos p) + 1, snd (get_grid_pos p)) = Inr True
        \<and> is_wall mz (fst (get_grid_pos p) + fst (dir_value (next_direction (handle_input im p))),
                      snd (get_grid_pos p) + snd (dir_value (next_direction (handle_input im p))))
            = Inr True
      \<longrightarrow> (\<exists>p1. Player_update dt im mz p = Inr p1 \<and> velocity p1 = \<lparr>x = 0, y = 0\<rparr>
             \<and> direction p1 = RIGHT \<and> Entity.position p1 = Entity.position p))"
proof (intro conjI impI)
  assume u: "Player_update dt im mz p = Inr p'"
  from Player_update_Inr [OF u] obtain p1 where
    m: "Player_move dt mz (handle_input im p) = Inr p1" and
    f: "velocity p' = velocity p1" "direction p' = direction p1" "speed p' = speed p1"
       "Entity.position p' = Entity.position p1"
    by blast
  note n = Player_update_next_direction [OF u m]
  note mv = Player_move_velocity [OF m]
  note md = Player_move_direction [OF m]
  from mv f
  show "velocity p' =
        (if is_centered p
            \<and> is_wall mz (fst (get_grid_pos p) + fst (dir_value (direction p')),
                          snd (get_grid_pos p) + snd (dir_value (direction p'))) = Inr True
         then \<lparr>x = 0, y = 0\<rparr>
         else \<lparr>x = of_int (fst (dir_value (direction p'))) * speed p',
               y = of_int (snd (dir_value (direction p'))) * speed p'\<rparr>)"
    by simp
  from md f n
  show "direction p' =
        (if is_centered p
            \<and> is_wall mz (fst (get_grid_pos p) + fst (dir_value (next_direction p')),
                          snd (get_grid_pos p) + snd (dir_value (next_direction p'))) = Inr False
         then next_direction p' else direction p)"
    by simp
  from md n
  show "next_direction p' =
        (if is_key_down im K_LEFT \<or> is_key_down im K_a then LEFT
         else if is_key_down im K_RIGHT \<or> is_key_down im K_d then RIGHT
         else if is_key_down im K_UP \<or> is_key_down im K_w then UP
         else if is_key_down im K_DOWN \<or> is_key_down im K_s then DOWN
         else next_direction p)"
    by (simp only: handle_input_next_direction)
  from mv f show "speed p' = speed p" by simp
  from mv f show "Entity.position p' = Vector2_add (Entity.position p) (Vector2_mul (velocity p') dt)"
    by simp
next
  assume h: "is_centered p \<and> direction p = RIGHT
        \<and> is_wall mz (fst (get_grid_pos p) + 1, snd (get_grid_pos p)) = Inr True
        \<and> is_wall mz (fst (get_grid_pos p) + fst (dir_value (next_direction (handle_input im p))),
                      snd (get_grid_pos p) + snd (dir_value (next_direction (handle_input im p))))
            = Inr True"
  then obtain p1 where
    m: "Player_move dt mz (handle_input im p) = Inr p1" and
    f: "velocity p1 = \<lparr>x = 0, y = 0\<rparr>" "direction p1 = RIGHT"
       "Entity.position p1 = Entity.position p"
    using Player_move_stops [of "handle_input im p" mz dt] by auto
  from Player_update_after_move [OF m] f
  show "\<exists>p1. Player_update dt im mz p = Inr p1 \<and> velocity p1 = \<lparr>x = 0, y = 0\<rparr>
             \<and> direction p1 = RIGHT \<and> Entity.position p1 = Entity.position p"
    by auto
qed

text \<open>
  In the maze of the program, at the centre of the cell \<open>(11, 1)\<close>, with the wall
  \<open>(12, 1)\<close> to the right and the open cell \<open>(10, 1)\<close> to the left: a player heading right
  with the right key held stops; a player heading down with the left key held turns
  left and moves with velocity \<open>(-160, 0)\<close>.
\<close>

theorem player_velocity_after_update_witness:
  "is_centered ((Player_init (grid_to_world (11, 1)))\<lparr>direction := RIGHT\<rparr>)
   \<and> direction ((Player_init (grid_to_world (11, 1)))\<lparr>direction := RIGHT\<rparr>) = RIGHT
   \<and> get_grid_pos ((Player_init (grid_to_world (11, 1)))\<lparr>direction := RIGHT\<rparr>) = (11, 1)
   \<and> is_wall (fst (Maze_init (\<lambda>n. 0))) (11 + 1, 1) = Inr True
   \<and> next_direction (handle_input \<lparr>keys_pressed = {K_RIGHT}, keys_just_pressed = {}\<rparr> ((Player_init (grid_to_world (11, 1)))\<lparr>direction := RIGHT\<rparr>)) = RIGHT
   \<and> Player_update (1 / 10) \<lparr>keys_pressed = {K_RIGHT}, keys_just_pressed = {}\<rparr> (fst (Maze_init (\<lambda>n. 0))) ((Player_init (grid_to_world (11, 1)))\<lparr>direction := RIGHT\<rparr>)
       = Inr \<lparr>position = \<lparr>x = 416, y = 168\<rparr>, start_pos = \<lparr>x = 416, y = 168\<rparr>,
               velocity = \<lparr>x = 0, y = 0\<rparr>, direction = RIGHT, speed = 160,
               next_direction = RIGHT, lives = 3, is_invulnerable = False,
               invulnerable_timer = 0, mouth_angle = 0, is_mouth_opening = True\<rparr>
   \<and> is_wall (fst (Maze_init (\<lambda>n. 0))) (11 - 1, 1) = Inr False
   \<and> (\<exists>p'. Player_update (1 / 10) \<lparr>keys_pressed = {K_LEFT}, keys_just_pressed = {}\<rparr> (fst (Maze_init (\<lambda>n. 0))) ((Player_init (grid_to_world (11, 1)))\<lparr>direction := DOWN\<rparr>) = Inr p'
        \<and> direction p' = LEFT \<and> next_direction p' = LEFT \<and> velocity p' = \<lparr>x = - 160, y = 0\<rparr>
        \<and> Entity.position p' = \<lparr>x = 400, y = 168\<rparr>)"
proof -
  let ?p = "\<lparr>position = \<lparr>x = 416, y = 168\<rparr>, start_pos = \<lparr>x = 416, y = 168\<rparr>,
             velocity = \<lparr>x = 0, y = 0\<rparr>, direction = RIGHT, speed = 160,
             next_direction = LEFT, lives = 3, is_invulnerable = False,
             invulnerable_timer = 0, mouth_angle = 0, is_mouth_opening = True\<rparr>"
  let ?r = "\<lparr>position = \<lparr>x = 416, y = 168\<rparr>, start_pos = \<lparr>x = 416, y = 168\<rparr>,
             velocity = \<lparr>x = 0, y = 0\<rparr>, direction = RIGHT, speed = 160,
             next_direction = RIGHT, lives = 3, is_invulnerable = False,
             invulnerable_timer = 0, mouth_angle = 0, is_mouth_opening = True\<rparr>"
  let ?s = "\<lparr>position = \<lparr>x = 416, y = 168\<rparr>, start_pos = \<lparr>x = 416, y = 168\<rparr>,
             velocity = \<lparr>x = 0, y = 0\<rparr>, direction = DOWN, speed = 160,
             next_direction = LEFT, lives = 3, is_invulnerable = False,
             invulnerable_timer = 0, mouth_angle = 0, is_mouth_opening = True\<rparr>"
  let ?q = "\<lparr>position = \<lparr>x = 416, y = 168\<rparr>, start_pos = \<lparr>x = 416, y = 168\<rparr>,
             velocity = \<lparr>x = 0, y = 0\<rparr>, direction = LEFT, speed = 160,
             next_direction = LEFT, lives = 3, is_invulnerable = False,
             invulnerable_timer = 0, mouth_angle = 0, is_mouth_opening = True\<rparr>"
  let ?mz = "fst (Maze_init (\<lambda>n. 0))"
  have e: "((Player_init (grid_to_world (11, 1)))\<lparr>direction := RIGHT\<rparr>) = ?p" by (simp add: entity_eval)
  have es: "((Player_init (grid_to_world (11, 1)))\<lparr>direction := DOWN\<rparr>) = ?s" by (simp add: entity_eval)
  have c: "is_centered ?p"
    by (rule is_centered_if_at_center [of _ 11 1]) (simp add: entity_eval)
  have cr: "is_centered ?r"
    by (rule is_centered_if_at_center [of _ 11 1]) (simp add: entity_eval)
  have cs: "is_centered ?s"
    by (rule is_centered_if_at_center [of _ 11 1]) (simp add: entity_eval)
  have d: "direction ?p = RIGHT" by simp
  have gp: "get_grid_pos ?p = (11, 1)" by (simp add: maze_eval)
  have gr: "get_grid_pos ?r = (11, 1)" by (simp add: maze_eval)
  have gs: "get_grid_pos ?s = (11, 1)" by (simp add: maze_eval)
  have gq: "get_grid_pos ?q = (11, 1)" by (simp add: maze_eval)
  have w: "is_wall ?mz (11 + 1, 1) = Inr True" by (simp add: maze_eval)
  have wl: "is_wall ?mz (11 - 1, 1) = Inr False" by (simp add: maze_eval)
  have wl': "is_wall ?mz (10, 1) = Inr False" using wl by simp
  have h: "handle_input \<lparr>keys_pressed = {K_RIGHT}, keys_just_pressed = {}\<rparr> ?p = ?r"
    by (simp add: handle_input_def is_key_down_def K_LEFT_def K_RIGHT_def K_a_def K_d_def)
  have n: "next_direction (handle_input \<lparr>keys_pressed = {K_RIGHT}, keys_just_pressed = {}\<rparr> ?p) = RIGHT"
    by (simp add: h)
  note t = player_velocity_after_update
    [where p = "?p" and im = "\<lparr>keys_pressed = {K_RIGHT}, keys_just_pressed = {}\<rparr>" and mz = "?mz" and dt = "1 / 10"]
  from conjunct2 [OF t] c d gp w n obtain p1 where
    u1: "Player_update (1 / 10) \<lparr>keys_pressed = {K_RIGHT}, keys_just_pressed = {}\<rparr> ?mz ?p = Inr p1"
    and v1: "velocity p1 = \<lparr>x = 0, y = 0\<rparr>" and d1: "direction p1 = RIGHT"
    by auto
  have cm: "commit_next_direction ?mz ?r = Inr ?r"
    using w by (simp add: commit_next_direction_def cr gr bind_err_def)
  have mv: "Player_move (1 / 10) ?mz ?r = Inr ?r"
    using w by (simp add: Player_move_def cm gr cr bind_err_def vector_eval)
  have u: "Player_update (1 / 10) \<lparr>keys_pressed = {K_RIGHT}, keys_just_pressed = {}\<rparr> ?mz ?p = Inr ?r"
    by (simp add: Player_update_def h mv bind_err_def animate_mouth_def Vector2_length_def)
  have hs: "handle_input \<lparr>keys_pressed = {K_LEFT}, keys_just_pressed = {}\<rparr> ?s = ?s"
    by (simp add: handle_input_def is_key_down_def)
  have kl: "is_key_down \<lparr>keys_pressed = {K_LEFT}, keys_just_pressed = {}\<rparr> K_LEFT"
    by (simp add: is_key_down_def)
  have cms: "commit_next_direction ?mz ?s = Inr ?q"
    by (simp add: commit_next_direction_def cs gs wl' bind_err_def)
  have mvs: "Player_move (1 / 10) ?mz ?s
      = Inr (?q\<lparr>velocity := \<lparr>x = - 160, y = 0\<rparr>, position := \<lparr>x = 400, y = 168\<rparr>\<rparr>)"
    by (simp add: Player_move_def cms gq wl' bind_err_def vector_eval)
  have mvs': "Player_move (1 / 10) ?mz
        (handle_input \<lparr>keys_pressed = {K_LEFT}, keys_just_pressed = {}\<rparr> ?s)
      = Inr (?q\<lparr>velocity := \<lparr>x = - 160, y = 0\<rparr>, position := \<lparr>x = 400, y = 168\<rparr>\<rparr>)"
    unfolding hs by (rule mvs)
  from Player_update_after_move [OF mvs'] obtain p2 where
    u2: "Player_update (1 / 10) \<lparr>keys_pressed = {K_LEFT}, keys_just_pressed = {}\<rparr> ?mz ?s = Inr p2"
    by blast
  note t2 = player_velocity_after_update
    [where p = "?s" and im = "\<lparr>keys_pressed = {K_LEFT}, keys_just_pressed = {}\<rparr>" and mz = "?mz"
      and dt = "1 / 10" and p' = p2]
  from t2 u2 kl have n2: "next_direction p2 = LEFT" by simp
  from t2 u2 n2 cs gs wl' have d2: "direction p2 = LEFT" by simp
  from t2 u2 have s2: "speed p2 = 160" by simp
  from t2 u2 d2 s2 cs gs wl' have v2: "velocity p2 = \<lparr>x = - 160, y = 0\<rparr>" by simp
  from t2 u2 v2 have x2: "Entity.position p2 = \<lparr>x = 400, y = 168\<rparr>" by (simp add: vector_eval)
  have ex: "\<exists>p'. Player_update (1 / 10) \<lparr>keys_pressed = {K_LEFT}, keys_just_pressed = {}\<rparr> ?mz ?s = Inr p'
        \<and> direction p' = LEFT \<and> next_direction p' = LEFT \<and> velocity p' = \<lparr>x = - 160, y = 0\<rparr>
        \<and> Entity.position p' = \<lparr>x = 400, y = 168\<rparr>"
    using u2 n2 d2 v2 x2 by blast
  show ?thesis unfolding e es by (insert t u1, (intro conjI; (rule c d gp w n u wl ex)))
qed

text \<open>
  Claim C7 as stated (a centered player heading right with a wall to its right has zero
  velocity after the update) fails when the desired next direction is open. A player at
  the centre of the cell \<open>(11, 1)\<close>, heading right with the wall \<open>(12, 1)\<close> ahead, no key
  held and the desired direction left (the value the constructor gives it), turns left
  and moves: the velocity is \<open>(-160, 0)\<close>.
\<close>

theorem player_turns_back_at_wall:
  "is_centered ((Player_init (grid_to_world (11, 1)))\<lparr>direction := RIGHT\<rparr>)
   \<and> direction ((Player_init (grid_to_world (11, 1)))\<lparr>direction := RIGHT\<rparr>) = RIGHT
   \<and> get_grid_pos ((Player_init (grid_to_world (11, 1)))\<lparr>direction := RIGHT\<rparr>) = (11, 1)
   \<and> is_wall (fst (Maze_init (\<lambda>n. 0))) (12, 1) = Inr True
   \<and> Player_update (1 / 10) \<lparr>keys_pressed = {}, keys_just_pressed = {}\<rparr> (fst (Maze_init (\<lambda>n. 0))) ((Player_init (grid_to_world (11, 1)))\<lparr>direction := RIGHT\<rparr>)
       = Inr \<lparr>position = \<lparr>x = 400, y = 168\<rparr>, start_pos = \<lparr>x = 416, y = 168\<rparr>,
               velocity = \<lparr>x = - 160, y = 0\<rparr>, direction = LEFT, speed = 160,
               next_direction = LEFT, lives = 3, is_invulnerable = False,
               invulnerable_timer = 0, mouth_angle = 45, is_mouth_opening = True\<rparr>"
proof -
  let ?p = "\<lparr>position = \<lparr>x = 416, y = 168\<rparr>, start_pos = \<lparr>x = 416, y = 168\<rparr>,
             velocity = \<lparr>x = 0, y = 0\<rparr>, direction = RIGHT, speed = 160,
             next_direction = LEFT, lives = 3, is_invulnerable = False,
             invulnerable_timer = 0, mouth_angle = 0, is_mouth_opening = True\<rparr>"
  let ?q = "\<lparr>position = \<lparr>x = 416, y = 168\<rparr>, start_pos = \<lparr>x = 416, y = 168\<rparr>,
             velocity = \<lparr>x = 0, y = 0\<rparr>, direction = LEFT, speed = 160,
             next_direction = LEFT, lives = 3, is_invulnerable = False,
             invulnerable_timer = 0, mouth_angle = 0, is_mouth_opening = True\<rparr>"
  have e: "((Player_init (grid_to_world (11, 1)))\<lparr>direction := RIGHT\<rparr>) = ?p" by (simp add: entity_eval)
  have c: "is_centered ?p"
    by (rule is_centered_if_at_center [of _ 11 1]) (simp add: entity_eval)
  have cq: "is_centered ?q"
    by (rule is_centered_if_at_center [of _ 11 1]) (simp add: entity_eval)
  have d: "direction ?p = RIGHT" by simp
  have gp: "get_grid_pos ?p = (11, 1)" by (simp add: maze_eval)
  have gq: "get_grid_pos ?q = (11, 1)" by (simp add: maze_eval)
  have w: "is_wall (fst (Maze_init (\<lambda>n. 0))) (12, 1) = Inr True" by (simp add: maze_eval)
  have w2: "is_wall (fst (Maze_init (\<lambda>n. 0))) (10, 1) = Inr False" by (simp add: maze_eval)
  have h: "handle_input \<lparr>keys_pressed = {}, keys_just_pressed = {}\<rparr> ?p = ?p"
    by (simp add: handle_input_def is_key_down_def)
  have cm: "commit_next_direction (fst (Maze_init (\<lambda>n. 0))) ?p = Inr ?q"
    by (simp add: commit_next_direction_def c gp w2 bind_err_def)
  have mv: "Player_move (1 / 10) (fst (Maze_init (\<lambda>n. 0))) ?p
      = Inr (?q\<lparr>velocity := \<lparr>x = - 160, y = 0\<rparr>, position := \<lparr>x = 400, y = 168\<rparr>\<rparr>)"
    by (simp add: Player_move_def cm gq w2 bind_err_def vector_eval)
  have m: "py_mod 45 90 = 45" by (rule py_mod_small) simp_all
  have u: "Player_update (1 / 10) \<lparr>keys_pressed = {}, keys_just_pressed = {}\<rparr> (fst (Maze_init (\<lambda>n. 0))) ?p
       = Inr \<lparr>position = \<lparr>x = 400, y = 168\<rparr>, start_pos = \<lparr>x = 416, y = 168\<rparr>,
               velocity = \<lparr>x = - 160, y = 0\<rparr>, direction = LEFT, speed = 160,
               next_direction = LEFT, lives = 3, is_invulnerable = False,
               invulnerable_timer = 0, mouth_angle = 45, is_mouth_opening = True\<rparr>"
    by (simp add: Player_update_def h mv bind_err_def animate_mouth_def Vector2_length_def m)
  show ?thesis unfolding e by (intro conjI; (rule c d gp w u))
qed

subsection \<open>Sessions\<close>

text \<open>The parse of the layout, as far as the spawn points go: a row without \<^verbatim>\<open>S\<close> and
  \<^verbatim>\<open>G\<close> leaves them alone, so only rows 8 and 11 of \<open>LAYOUT\<close> matter.\<close>

lemma parse_cell_pellets_uneaten:
  "\<forall>q\<in>set (ps_pellets st). \<not> eaten q \<Longrightarrow> \<forall>q\<in>set (ps_pellets (parse_cell r c ch st)). \<not> eaten q"
  by (auto simp: parse_cell_def Pellet_init_def random_uniform_def Let_def)

lemma parse_row_pellets_uneaten:
  "\<forall>q\<in>set (ps_pellets st). \<not> eaten q \<Longrightarrow> \<forall>q\<in>set (ps_pellets (parse_row r c row st)). \<not> eaten q"
proof (induction row arbitrary: c st)
  case Nil
  then show ?case by simp
next
  case (Cons ch row)
  from Cons.IH [OF parse_cell_pellets_uneaten [OF Cons.prems]] show ?case by simp
qed

lemma parse_rows_pellets_uneaten:
  "\<forall>q\<in>set (ps_pellets st). \<not> eaten q \<Longrightarrow> \<forall>q\<in>set (ps_pellets (parse_rows r rows st)). \<not> eaten q"
proof (induction rows arbitrary: r st)
  case Nil
  then show ?case by simp
next
  case (Cons row rows)
  from Cons.IH [OF parse_row_pellets_uneaten [OF Cons.prems]] show ?case by simp
qed

lemma Maze_init_pellets_uneaten: "\<forall>q\<in>set (pellets (fst (Maze_init g))). \<not> eaten q"
  using parse_rows_pellets_uneaten
    [of "\<lparr>ps_pellets = [], ps_player_start_pos = None, ps_ghost_start_positions = [],
         ps_ghost_spawn_index = 0, ps_random = g\<rparr>" 0 LAYOUT]
  by (simp add: Maze_init_def Let_def)

lemma parse_cell_plain:
  "ch \<noteq> CHR ''S'' \<Longrightarrow> ch \<noteq> CHR ''G'' \<Longrightarrow>
     ps_player_start_pos (parse_cell r c ch st) = ps_player_start_pos st
   \<and> ps_ghost_start_positions (parse_cell r c ch st) = ps_ghost_start_positions st
   \<and> ps_ghost_spawn_index (parse_cell r c ch st) = ps_ghost_spawn_index st"
  by (simp add: parse_cell_def Pellet_init_def random_uniform_def Let_def)

lemma parse_row_plain:
  "CHR ''S'' \<notin> set row \<Longrightarrow> CHR ''G'' \<notin> set row \<Longrightarrow>
     ps_player_start_pos (parse_row r c row st) = ps_player_start_pos st
   \<and> ps_ghost_start_positions (parse_row r c row st) = ps_ghost_start_positions st
   \<and> ps_ghost_spawn_index (parse_row r c row st) = ps_ghost_spawn_index st"
proof (induction row arbitrary: c st)
  case Nil
  then show ?case by simp
next
  case (Cons ch row)
  then have "ch \<noteq> CHR ''S''" "ch \<noteq> CHR ''G''" "CHR ''S'' \<notin> set row" "CHR ''G'' \<notin> set row"
    by auto
  with Cons.IH [of "c + 1" "parse_cell r c ch st"] parse_cell_plain [of ch r c st]
  show ?case by simp
qed

lemma parse_rows_plain:
  "\<forall>row\<in>set rows. CHR ''S'' \<notin> set row \<and> CHR ''G'' \<notin> set row \<Longrightarrow>
     ps_player_start_pos (parse_rows r rows st) = ps_player_start_pos st
   \<and> ps_ghost_start_positions (parse_rows r rows st) = ps_ghost_start_positions st
   \<and> ps_ghost_spawn_index (parse_rows r rows st) = ps_ghost_spawn_index st"
proof (induction rows arbitrary: r st)
  case Nil
  then show ?case by simp
next
  case (Cons row rows)
  with Cons.IH [of "r + 1" "parse_row r 0 row st"] parse_row_plain [of row r 0 st]
  show ?case by simp
qed

lemma parse_row_append:
  "parse_row r c (a @ b) st = parse_row r (c + int (length a)) b (parse_row r c a st)"
  by (induction a arbitrary: c st) (simp_all add: algebra_simps)

lemma parse_rows_append:
  "parse_rows r (a @ b) st = parse_rows (r + int (length a)) b (parse_rows r a st)"
  by (induction a arbitrary: r st) (simp_all add: algebra_simps)

lemma parse_row_mark:
  assumes "CHR ''S'' \<notin> set post" "CHR ''G'' \<notin> set post"
  shows "ps_player_start_pos (parse_row r 0 (pre @ ch # post) st)
           = ps_player_start_pos (parse_cell r (int (length pre)) ch (parse_row r 0 pre st))
         \<and> ps_ghost_start_positions (parse_row r 0 (pre @ ch # post) st)
           = ps_ghost_start_positions (parse_cell r (int (length pre)) ch (parse_row r 0 pre st))
         \<and> ps_ghost_spawn_index (parse_row r 0 (pre @ ch # post) st)
           = ps_ghost_spawn_index (parse_cell r (int (length pre)) ch (parse_row r 0 pre st))"
  using parse_row_plain [OF assms, of r "int (length pre) + 1"
      "parse_cell r (int (length pre)) ch (parse_row r 0 pre st)"]
  by (simp add: parse_row_append)

lemma Maze_init_spawns:
  "player_start_pos (fst (Maze_init g)) = grid_to_world (10, 11)
   \<and> ghost_start_positions (fst (Maze_init g)) = [(''blinky'', grid_to_world (10, 8))]"
proof -
  define A where "A = take 8 LAYOUT"
  define B where "B = take 2 (drop 9 LAYOUT)"
  define C where "C = drop 12 LAYOUT"
  define pre8 where "pre8 = ''    1.1   ''"
  define post8 where "post8 = ''   1.1    ''"
  define pre11 where "pre11 = ''11111.1 11''"
  define post11 where "post11 = ''11 1.11111''"
  define st0 where "st0 = \<lparr>ps_pellets = [], ps_player_start_pos = None,
     ps_ghost_start_positions = [], ps_ghost_spawn_index = 0, ps_random = g\<rparr>"
  have L: "LAYOUT = A @ [pre8 @ CHR ''G'' # post8] @ B @ [pre11 @ CHR ''S'' # post11] @ C"
    by (simp add: LAYOUT_def A_def B_def C_def pre8_def post8_def pre11_def post11_def)
  have lens: "length A = 8" "length B = 2" "length pre8 = 10" "length pre11 = 10"
    by (simp_all add: LAYOUT_def A_def B_def pre8_def pre11_def)
  have plainA: "\<forall>row\<in>set A. CHR ''S'' \<notin> set row \<and> CHR ''G'' \<notin> set row"
    by (simp add: A_def LAYOUT_def)
  have plainB: "\<forall>row\<in>set B. CHR ''S'' \<notin> set row \<and> CHR ''G'' \<notin> set row"
    by (simp add: B_def LAYOUT_def)
  have plainC: "\<forall>row\<in>set C. CHR ''S'' \<notin> set row \<and> CHR ''G'' \<notin> set row"
    by (simp add: C_def LAYOUT_def)
  have plain8: "CHR ''S'' \<notin> set pre8" "CHR ''G'' \<notin> set pre8"
    "CHR ''S'' \<notin> set post8" "CHR ''G'' \<notin> set post8"
    by (simp_all add: pre8_def post8_def)
  have plain11: "CHR ''S'' \<notin> set pre11" "CHR ''G'' \<notin> set pre11"
    "CHR ''S'' \<notin> set post11" "CHR ''G'' \<notin> set post11"
    by (simp_all add: pre11_def post11_def)
  define s1 where "s1 = parse_rows 0 A st0"
  define s2 where "s2 = parse_row 8 0 (pre8 @ CHR ''G'' # post8) s1"
  define s3 where "s3 = parse_rows 9 B s2"
  define s4 where "s4 = parse_row 11 0 (pre11 @ CHR ''S'' # post11) s3"
  have whole: "parse_rows 0 LAYOUT st0 = parse_rows 12 C s4"
    unfolding L s4_def s3_def s2_def s1_def
    by (simp add: parse_rows_append lens del: parse_row.simps)
  have f1: "ps_player_start_pos s1 = None" "ps_ghost_start_positions s1 = []"
    "ps_ghost_spawn_index s1 = 0"
    using parse_rows_plain [OF plainA, of 0 st0] by (simp_all add: s1_def st0_def)
  have g1: "ps_player_start_pos (parse_row 8 0 pre8 s1) = None"
    "ps_ghost_start_positions (parse_row 8 0 pre8 s1) = []"
    "ps_ghost_spawn_index (parse_row 8 0 pre8 s1) = 0"
    using parse_row_plain [OF plain8(1,2), of 8 0 s1] f1 by simp_all
  have f2: "ps_player_start_pos s2 = None"
    "ps_ghost_start_positions s2 = [(''blinky'', grid_to_world (10, 8))]"
    "ps_ghost_spawn_index s2 = 1"
    using parse_row_mark [OF plain8(3,4), of 8 pre8 "CHR ''G''" s1] g1
    by (simp_all add: s2_def lens parse_cell_def ghost_names_def grid_to_world_def Let_def)
  have f3: "ps_player_start_pos s3 = None"
    "ps_ghost_start_positions s3 = [(''blinky'', grid_to_world (10, 8))]"
    using parse_rows_plain [OF plainB, of 9 s2] f2 by (simp_all add: s3_def)
  have g3: "ps_ghost_start_positions (parse_row 11 0 pre11 s3) = [(''blinky'', grid_to_world (10, 8))]"
    using parse_row_plain [OF plain11(1,2), of 11 0 s3] f3 by simp
  have f4: "ps_player_start_pos s4 = Some (grid_to_world (10, 11))"
    "ps_ghost_start_positions s4 = [(''blinky'', grid_to_world (10, 8))]"
    using parse_row_mark [OF plain11(3,4), of 11 pre11 "CHR ''S''" s3] g3
    by (simp_all add: s4_def lens parse_cell_def grid_to_world_def Let_def)
  have f5: "ps_player_start_pos (parse_rows 0 LAYOUT st0) = Some (grid_to_world (10, 11))"
    "ps_ghost_start_positions (parse_rows 0 LAYOUT st0) = [(''blinky'', grid_to_world (10, 8))]"
    using parse_rows_plain [OF plainC, of 12 s4] f4 by (simp_all add: whole)
  show ?thesis
    using f5 by (simp add: Maze_init_def Let_def st0_def)
qed

text \<open>The pellets of the parse: one for each \<^verbatim>\<open>.\<close> and \<^verbatim>\<open>P\<close> of the layout, a power pellet for
  each \<^verbatim>\<open>P\<close>; \<open>LAYOUT\<close> has 210 of them, 6 of these \<^verbatim>\<open>P\<close>.\<close>

lemma parse_cell_count:
  "length (ps_pellets (parse_cell r c ch st))
     = length (ps_pellets st) + (if ch = CHR ''.'' \<or> ch = CHR ''P'' then 1 else 0)
   \<and> length (filter is_power (ps_pellets (parse_cell r c ch st)))
     = length (filter is_power (ps_pellets st)) + (if ch = CHR ''P'' then 1 else 0)"
  by (simp add: parse_cell_def Pellet_init_def random_uniform_def Let_def)

lemma parse_row_count:
  "length (ps_pellets (parse_row r c row st))
     = length (ps_pellets st) + length (filter (\<lambda>ch. ch = CHR ''.'' \<or> ch = CHR ''P'') row)
   \<and> length (filter is_power (ps_pellets (parse_row r c row st)))
     = length (filter is_power (ps_pellets st)) + length (filter (\<lambda>ch. ch = CHR ''P'') row)"
proof (induction row arbitrary: c st)
  case Nil
  then show ?case by simp
next
  case (Cons ch row)
  from Cons.IH [of "c + 1" "parse_cell r c ch st"] parse_cell_count [of r c ch st]
  show ?case by simp
qed

lemma parse_rows_count:
  "length (ps_pellets (parse_rows r rows st))
     = length (ps_pellets st)
       + sum_list (map (\<lambda>row. length (filter (\<lambda>ch. ch = CHR ''.'' \<or> ch = CHR ''P'') row)) rows)
   \<and> length (filter is_power (ps_pellets (parse_rows r rows st)))
     = length (filter is_power (ps_pellets st))
       + sum_list (map (\<lambda>row. length (filter (\<lambda>ch. ch = CHR ''P'') row)) rows)"
proof (induction rows arbitrary: r st)
  case Nil
  then show ?case by simp
next
  case (Cons row rows)
  from Cons.IH [of "r + 1" "parse_row r 0 row st"] parse_row_count [of r 0 row st]
  show ?case by simp
qed

lemma LAYOUT_pellet_cells:
  "sum_list (map (\<lambda>row. length (filter (\<lambda>ch. ch = CHR ''.'' \<or> ch = CHR ''P'') row)) LAYOUT) = 210"
  by (simp add: LAYOUT_def)

lemma LAYOUT_power_cells:
  "sum_list (map (\<lambda>row. length (filter (\<lambda>ch. ch = CHR ''P'') row)) LAYOUT) = 6"
  by (simp add: LAYOUT_def)

lemma Maze_init_pellet_count:
  "length (pellets (fst (Maze_init g))) = 210
   \<and> length (filter is_power (pellets (fst (Maze_init g)))) = 6"
  using parse_rows_count
    [of 0 LAYOUT "\<lparr>ps_pellets = [], ps_player_start_pos = None, ps_ghost_start_positions = [],
         ps_ghost_spawn_index = 0, ps_random = g\<rparr>"]
  by (simp add: Maze_init_def Let_def LAYOUT_pellet_cells LAYOUT_power_cells)

lemma GameScene_init_fresh:
  "score (fst (GameScene_init g)) = 0
   \<and> particles (particle_system (fst (GameScene_init g))) = []
   \<and> (\<forall>q\<in>set (pellets (maze (fst (GameScene_init g)))). \<not> eaten q)
   \<and> length (pellets (maze (fst (GameScene_init g)))) = 210
   \<and> length (filter is_power (pellets (maze (fst (GameScene_init g))))) = 6
   \<and> player (fst (GameScene_init g)) = Player_init (grid_to_world (10, 11))
   \<and> ghosts (fst (GameScene_init g)) = [Ghost_init (grid_to_world (10, 8)) COLOR_RED ''blinky'']
   \<and> \<not> is_power_pellet_active (fst (GameScene_init g))
   \<and> power_pellet_timer (fst (GameScene_init g)) = 0"
  using Maze_init_spawns [of g] Maze_init_pellets_uneaten [of g] Maze_init_pellet_count [of g]
  by (simp add: GameScene_init_def split_def Let_def ParticleSystem_init_def)

lemma change_state_playing:
  "PLAYING \<in> dom (scenes e) \<Longrightarrow>
   change_state PLAYING e w =
     Inr (e\<lparr>heap := heap e @ [Game (fst (GameScene_init (random_state w)))],
            scenes := (scenes e)(PLAYING \<mapsto> length (heap e)),
            current_state := PLAYING, current_scene := length (heap e)\<rparr>,
          w\<lparr>random_state := snd (GameScene_init (random_state w))\<rparr>)"
  by (simp add: change_state_def split_def Let_def)

lemma change_state_keeps_registry:
  "PLAYING \<in> dom (scenes e) \<Longrightarrow> change_state s e w = Inr (e', w') \<Longrightarrow>
   PLAYING \<in> dom (scenes e')"
  by (auto simp: change_state_def split_def Let_def split: if_splits option.splits)

lemma GameEngine_init_registers:
  "GameEngine_init device_play sm w = Inr (e, w') \<Longrightarrow>
   dom (scenes e) = {MAIN_MENU, PLAYING} \<and> length (heap e) = 2 \<and> current_state e = MAIN_MENU"
  by (auto simp: GameEngine_init_def bind_err_def split_def Let_def split: sum.splits if_splits)

text \<open>
  Claim C8. In an engine whose registry holds the Playing state (as it does from the
  constructor on), two calls of \<open>change_state(PLAYING)\<close> in a row both return; after the
  second, the state is Playing, the registry and the current scene refer to an object
  stored at a new address, and that object is a scene built from nothing but the layout
  and the random generator: score 0, the 210 pellets of the layout (6 of them power
  pellets), every one uneaten, no particles, a new player at the spawn cell \<open>(10, 11)\<close>
  and the one new ghost at \<open>(10, 8)\<close>. The scene of the first call stays in the store
  untouched and unreferenced.
\<close>

theorem change_state_playing_builds_new_session:
  assumes "PLAYING \<in> dom (scenes e)"
  shows "\<exists>e1 w1 e2 w2.
           change_state PLAYING e w = Inr (e1, w1)
         \<and> change_state PLAYING e1 w1 = Inr (e2, w2)
         \<and> current_state e2 = PLAYING
         \<and> scenes e2 PLAYING = Some (current_scene e2)
         \<and> current_scene e2 = length (heap e1)
         \<and> current_scene e2 \<noteq> current_scene e1
         \<and> heap e2 = heap e1 @ [Game (fst (GameScene_init (random_state w1)))]
         \<and> scene_at e2 (current_scene e2) = Inr (Game (fst (GameScene_init (random_state w1))))
         \<and> score (fst (GameScene_init (random_state w1))) = 0
         \<and> length (pellets (maze (fst (GameScene_init (random_state w1))))) = 210
         \<and> length (filter is_power (pellets (maze (fst (GameScene_init (random_state w1)))))) = 6
         \<and> (\<forall>q\<in>set (pellets (maze (fst (GameScene_init (random_state w1))))). \<not> eaten q)
         \<and> particles (particle_system (fst (GameScene_init (random_state w1)))) = []
         \<and> player (fst (GameScene_init (random_state w1))) = Player_init (grid_to_world (10, 11))
         \<and> ghosts (fst (GameScene_init (random_state w1)))
             = [Ghost_init (grid_to_world (10, 8)) COLOR_RED ''blinky'']"
proof -
  define e1 where "e1 = e\<lparr>heap := heap e @ [Game (fst (GameScene_init (random_state w)))],
            scenes := (scenes e)(PLAYING \<mapsto> length (heap e)),
            current_state := PLAYING, current_scene := length (heap e)\<rparr>"
  define w1 where "w1 = w\<lparr>random_state := snd (GameScene_init (random_state w))\<rparr>"
  define e2 where "e2 = e1\<lparr>heap := heap e1 @ [Game (fst (GameScene_init (random_state w1)))],
            scenes := (scenes e1)(PLAYING \<mapsto> length (heap e1)),
            current_state := PLAYING, current_scene := length (heap e1)\<rparr>"
  define w2 where "w2 = w1\<lparr>random_state := snd (GameScene_init (random_state w1))\<rparr>"
  have c1: "change_state PLAYING e w = Inr (e1, w1)"
    unfolding e1_def w1_def using assms by (rule change_state_playing)
  have "PLAYING \<in> dom (scenes e1)" by (simp add: e1_def)
  then have c2: "change_state PLAYING e1 w1 = Inr (e2, w2)"
    unfolding e2_def w2_def by (rule change_state_playing)
  have a: "current_state e2 = PLAYING" "scenes e2 PLAYING = Some (current_scene e2)"
    "current_scene e2 = length (heap e1)" "current_scene e2 \<noteq> current_scene e1"
    "heap e2 = heap e1 @ [Game (fst (GameScene_init (random_state w1)))]"
    by (simp_all add: e2_def e1_def)
  have b: "scene_at e2 (current_scene e2) = Inr (Game (fst (GameScene_init (random_state w1))))"
    by (simp add: scene_at_def getitem_def e2_def)
  note f = GameScene_init_fresh [of "random_state w1"]
  show ?thesis
    using c1 c2 a b f by blast
qed

text \<open>
  The engine as its constructor leaves it (two scenes in the store, the main menu
  current), then two calls of \<open>change_state(PLAYING)\<close>: the scenes of the two calls are
  stored at the addresses 2 and 3, and the second is the current one, with score 0, 210
  pellets all uneaten and the player at its spawn cell.
\<close>

theorem change_state_playing_builds_new_session_witness:
  "\<exists>e w e1 w1 e2 w2.
       GameEngine_init (\<lambda>s l m. Inr (m @ [(s, l)])) \<lparr>sounds = [''intro'' \<mapsto> [0, 1]], enabled = True\<rparr>
         \<lparr>audio = [], stdout = [], random_state = (\<lambda>n. 0)\<rparr> = Inr (e, w)
     \<and> PLAYING \<in> dom (scenes e)
     \<and> current_state e = MAIN_MENU \<and> length (heap e) = 2
     \<and> change_state PLAYING e w = Inr (e1, w1)
     \<and> change_state PLAYING e1 w1 = Inr (e2, w2)
     \<and> current_scene e1 = 2 \<and> current_scene e2 = 3 \<and> current_state e2 = PLAYING
     \<and> scenes e2 PLAYING = Some 3
     \<and> scene_at e2 3 = Inr (Game (fst (GameScene_init (random_state w1))))
     \<and> score (fst (GameScene_init (random_state w1))) = 0
     \<and> length (pellets (maze (fst (GameScene_init (random_state w1))))) = 210
     \<and> length (filter is_power (pellets (maze (fst (GameScene_init (random_state w1)))))) = 6
     \<and> (\<forall>q\<in>set (pellets (maze (fst (GameScene_init (random_state w1))))). \<not> eaten q)
     \<and> player (fst (GameScene_init (random_state w1))) = Player_init (grid_to_world (10, 11))"
proof -
  obtain e w where init:
    "GameEngine_init (\<lambda>s l m. Inr (m @ [(s, l)])) \<lparr>sounds = [''intro'' \<mapsto> [0, 1]], enabled = True\<rparr>
         \<lparr>audio = [], stdout = [], random_state = (\<lambda>n. 0)\<rparr> = Inr (e, w)"
    by (simp add: GameEngine_init_def MainMenuScene_init_def play_def bind_err_def split_def Let_def)
  from GameEngine_init_registers [OF init]
  have reg: "PLAYING \<in> dom (scenes e)" and st: "current_state e = MAIN_MENU"
    and len: "length (heap e) = 2"
    by auto
  from change_state_playing_builds_new_session [OF reg, of w]
  obtain e1 w1 e2 w2 where
    c1: "change_state PLAYING e w = Inr (e1, w1)" and
    c2: "change_state PLAYING e1 w1 = Inr (e2, w2)" and
    r: "current_state e2 = PLAYING" "scenes e2 PLAYING = Some (current_scene e2)"
       "current_scene e2 = length (heap e1)"
       "scene_at e2 (current_scene e2) = Inr (Game (fst (GameScene_init (random_state w1))))"
       "score (fst (GameScene_init (random_state w1))) = 0"
       "length (pellets (maze (fst (GameScene_init (random_state w1))))) = 210"
       "length (filter is_power (pellets (maze (fst (GameScene_init (random_state w1)))))) = 6"
       "\<forall>q\<in>set (pellets (maze (fst (GameScene_init (random_state w1))))). \<not> eaten q"
       "player (fst (GameScene_init (random_state w1))) = Player_init (grid_to_world (10, 11))"
    by blast
  from c1 change_state_playing [OF reg, of w] len
  have h1: "current_scene e1 = 2" "length (heap e1) = 3"
    by auto
  with r have "current_scene e2 = 3" by simp
  with init reg st len c1 c2 h1 r show ?thesis
    by (intro exI [of _ e] exI [of _ w] exI [of _ e1] exI [of _ w1] exI [of _ e2] exI [of _ w2]) simp
qed

end
